theory Spec2Isabelle
  imports Main "HOL-Library.AList" "HOL-Library.Sublist"
begin

section \<open>The Sentinel client of package rediss\<close>

text \<open>
  The development follows the second (current) version of \<^verbatim>\<open>rediss.go\<close>: the
  functions \<^verbatim>\<open>New\<close>, \<^verbatim>\<open>bootstrap\<close>, \<^verbatim>\<open>findPreferred\<close>, \<^verbatim>\<open>reset\<close>,
  \<^verbatim>\<open>pubSub\<close>, \<^verbatim>\<open>NDo\<close>, \<^verbatim>\<open>resubscribe\<close> and \<^verbatim>\<open>NUnDo\<close>.

  The network, the Redis servers and the packages \<^verbatim>\<open>redisb\<close>, \<^verbatim>\<open>redisn\<close> and
  \<^verbatim>\<open>redisp\<close> are outside the program. They are an environment: a record of
  functions that answer each call, indexed by a clock that every call advances, so
  the same address may answer differently at different times. The methods \<^verbatim>\<open>Do\<close>,
  \<^verbatim>\<open>DoN\<close>, \<^verbatim>\<open>Out\<close>, \<^verbatim>\<open>Get\<close>, \<^verbatim>\<open>Put\<close>, \<^verbatim>\<open>Bad\<close> and \<^verbatim>\<open>PDo\<close> hand their
  arguments to the pool and write no field of the client; they have no definition
  here.
\<close>

subsection \<open>Strings\<close>

text \<open>\<^verbatim>\<open>strings.SplitN(s, sep, n)\<close> for a one-byte separator and \<open>n \<ge> 0\<close>: at most
  \<open>n\<close> pieces, the last one the unsplit remainder; no piece at all for \<open>n = 0\<close>.\<close>

fun SplitN :: "string \<Rightarrow> char \<Rightarrow> nat \<Rightarrow> string list" where
  "SplitN s sep 0 = []"
| "SplitN s sep (Suc 0) = [s]"
| "SplitN s sep (Suc (Suc k)) =
     (if sep \<in> set s
      then takeWhile (\<lambda>c. c \<noteq> sep) s # SplitN (tl (dropWhile (\<lambda>c. c \<noteq> sep) s)) sep (Suc k)
      else [s])"

text \<open>\<^verbatim>\<open>strings.HasSuffix\<close>.\<close>

definition HasSuffix :: "string \<Rightarrow> string \<Rightarrow> bool" where
  "HasSuffix s suf =
     (length suf \<le> length s \<and> drop (length s - length suf) s = suf)"

text \<open>\<^verbatim>\<open>strings.ToUpper\<close> on the bytes of a string: the letters \<open>a\<close> to \<open>z\<close> move to
  \<open>A\<close> to \<open>Z\<close>, every other byte stays. This is the Go function on ASCII strings,
  which is what a Redis server sends as its role; the handful of letters outside ASCII
  that Go maps to an ASCII capital are left alone here.\<close>

definition upperChar :: "char \<Rightarrow> char" where
  "upperChar c =
     (let k = (of_char c :: nat) in if 97 \<le> k \<and> k \<le> 122 then char_of (k - 32) else c)"

definition ToUpper :: "string \<Rightarrow> string" where
  "ToUpper s = map upperChar s"

subsection \<open>Replies, panics and outcomes\<close>

text \<open>A reply of \<^verbatim>\<open>redisb.Do\<close> is an \<^verbatim>\<open>interface{}\<close>: nil, a string, an integer
  or a slice of replies.\<close>

datatype reply = Null | Str string | Int int | Arr "reply list"

text \<open>The type assertions \<^verbatim>\<open>x.([]interface{})\<close> and \<^verbatim>\<open>x.(string)\<close>, and
  indexing a slice: each panics where the model answers \<open>None\<close>.\<close>

fun asArr :: "reply \<Rightarrow> reply list option" where
  "asArr (Arr xs) = Some xs"
| "asArr _ = None"

fun asStr :: "reply \<Rightarrow> string option" where
  "asStr (Str s) = Some s"
| "asStr _ = None"

definition index :: "'a list \<Rightarrow> nat \<Rightarrow> 'a option" where
  "index xs i = (if i < length xs then Some (xs ! i) else None)"

text \<open>\<^verbatim>\<open>v[i].(string)\<close>.\<close>

definition strAt :: "reply list \<Rightarrow> nat \<Rightarrow> string option" where
  "strAt v i = (case index v i of None \<Rightarrow> None | Some x \<Rightarrow> asStr x)"

text \<open>What a panic carries: an \<^verbatim>\<open>error\<close> value, a formatted message, a run-time
  error (failed type assertion, index out of range), or the panic that
  \<^verbatim>\<open>bootstrap\<close> recovers and raises again under its own prefix.\<close>

datatype panic =
    ErrorValue string
  | Message string
  | RuntimeError
  | BootstrapFailed panic

text \<open>A call either returns a value and the client as it left it, or panics; the
  client as it was when the panic started is kept, since the fields are only
  reachable through the pointer.\<close>

datatype ('a, 's) outcome = Done 'a 's | Panicked panic 's

fun stateOf :: "('a, 's) outcome \<Rightarrow> 's" where
  "stateOf (Done _ s) = s"
| "stateOf (Panicked _ s) = s"

subsection \<open>The client and its environment\<close>

datatype state = Creating | Bootstrapping | Resetting | Healthy

text \<open>The calls on the pool (\<^verbatim>\<open>redisn.New(redisp.New(...))\<close>, \<^verbatim>\<open>Empty\<close>,
  \<^verbatim>\<open>Fill\<close>) belong to other packages; the model records them in order.\<close>

datatype poolEvent = PoolNew | PoolEmpty | PoolFill

text \<open>
  \<^verbatim>\<open>SPool\<close>. A handler is an opaque value of type \<open>'h\<close>. The map \<^verbatim>\<open>n\<close> is an
  association list with distinct keys. The field \<^verbatim>\<open>pool\<close> is \<open>None\<close> for nil and
  otherwise the number of the pool (how many were made before it). The field
  \<^verbatim>\<open>creator\<close> is the function \<open>creator\<close> below. Three fields are not in the
  source: \<open>clock\<close> counts the calls answered by the environment, \<open>sent\<close> lists the
  calls of \<^verbatim>\<open>pool.NDo\<close> (command, keys) and \<open>poolLog\<close> the calls on the pool.
\<close>

record 'h SPool =
  State :: state
  master :: string
  masterName :: string
  hps :: "string list"
  size' :: int
  retryDelay :: int
  resyncDelay :: int
  p :: string
  Up :: bool
  pool :: "nat option"
  LogEnabled :: bool
  n :: "(string \<times> 'h list) list"
  clock :: nat
  sent :: "(string \<times> string list) list"
  poolLog :: "poolEvent list"

text \<open>
  The environment. \<open>Dial t addr\<close> is \<^verbatim>\<open>net.Dial("tcp", addr)\<close> at time \<open>t\<close>:
  \<open>None\<close> for a connection, \<open>Some e\<close> for an error whose text is \<open>e\<close>.
  \<open>DialTimeout t addr\<close> is the probe of \<^verbatim>\<open>findPreferred\<close>: \<open>None\<close> when
  \<^verbatim>\<open>net.DialTimeout\<close> fails, \<open>Some d\<close> when it connects and \<^verbatim>\<open>time.Since(start)\<close>
  is \<open>d\<close> nanoseconds. \<open>Do t addr args\<close> is \<^verbatim>\<open>redisb.Do\<close> on a connection to
  \<open>addr\<close>. \<open>poolNDo\<close> and \<open>poolNUnDo\<close> are the error results of the pool's
  \<^verbatim>\<open>NDo\<close> and \<^verbatim>\<open>NUnDo\<close>. \<open>ParseIP\<close> is \<^verbatim>\<open>net.ParseIP\<close>: \<open>None\<close> for nil,
  otherwise the bytes of the address.
\<close>

record env =
  Dial :: "nat \<Rightarrow> string \<Rightarrow> string option"
  DialTimeout :: "nat \<Rightarrow> string \<Rightarrow> int option"
  Do :: "nat \<Rightarrow> string \<Rightarrow> string list \<Rightarrow> string + reply"
  poolNDo :: "nat \<Rightarrow> string \<Rightarrow> string list \<Rightarrow> string option"
  poolNUnDo :: "nat \<Rightarrow> string \<Rightarrow> string list \<Rightarrow> string option"
  ParseIP :: "string \<Rightarrow> nat list option"

definition tick :: "'h SPool \<Rightarrow> 'h SPool" where
  "tick s = s\<lparr>clock := Suc (clock s)\<rparr>"

subsection \<open>findPreferred\<close>

text \<open>Lines 520 to 536: one peer record after the other; host and port are the
  strings at positions 3 and 5; an address not yet in \<^verbatim>\<open>s.hps\<close> is appended.\<close>

fun addSentinels :: "reply list \<Rightarrow> 'h SPool \<Rightarrow> (unit, 'h SPool) outcome" where
  "addSentinels [] s = Done () s"
| "addSentinels (tmpv # rest) s =
     (case asArr tmpv of
        None \<Rightarrow> Panicked RuntimeError s
      | Some v \<Rightarrow>
          (case strAt v 3 of
             None \<Rightarrow> Panicked RuntimeError s
           | Some h \<Rightarrow>
               (case strAt v 5 of
                  None \<Rightarrow> Panicked RuntimeError s
                | Some po \<Rightarrow>
                    (let hp = h @ '':'' @ po;
                         exists = (hp \<in> set (hps s))
                     in if \<not> exists
                        then addSentinels rest (s\<lparr>hps := hps s @ [hp]\<rparr>)
                        else addSentinels rest s))))"

text \<open>Lines 537 to 550: the probes. \<open>fastest\<close> starts at one second.\<close>

definition second :: int where
  "second = 1000000000"

fun probeAll :: "env \<Rightarrow> string list \<Rightarrow> int \<Rightarrow> 'h SPool \<Rightarrow> 'h SPool" where
  "probeAll e [] fastest s = s"
| "probeAll e (fhp # rest) fastest s =
     (case DialTimeout e (clock s) fhp of
        None \<Rightarrow> probeAll e rest fastest (tick s)
      | Some d \<Rightarrow>
          if d < fastest
          then probeAll e rest d ((tick s)\<lparr>p := fhp\<rparr>)
          else probeAll e rest fastest (tick s))"

definition findPreferred :: "env \<Rightarrow> 'h SPool \<Rightarrow> (unit, 'h SPool) outcome" where
  "findPreferred e s0 =
     (case (if length (p s0) = 0
            then (case hps s0 of [] \<Rightarrow> None | a # _ \<Rightarrow> Some (s0\<lparr>p := a\<rparr>))
            else Some s0) of
        None \<Rightarrow> Panicked RuntimeError s0
      | Some s1 \<Rightarrow>
          (case Dial e (clock s1) (p s1) of
             Some err \<Rightarrow> Panicked (ErrorValue err) (tick s1)
           | None \<Rightarrow>
               (let s2 = tick s1 in
                case Do e (clock s2) (p s2) [''SENTINEL'', ''sentinels'', masterName s2] of
                  Inl err \<Rightarrow>
                    Panicked (Message (''Unable to get list of sentinels: '' @ err)) (tick s2)
                | Inr tmpr \<Rightarrow>
                    (case asArr tmpr of
                       None \<Rightarrow> Panicked RuntimeError (tick s2)
                     | Some tmpa \<Rightarrow>
                         (case addSentinels tmpa (tick s2) of
                            Panicked x s3 \<Rightarrow> Panicked x s3
                          | Done _ s3 \<Rightarrow> Done () (probeAll e (hps s3) second s3))))))"

subsection \<open>reset\<close>

text \<open>\<^verbatim>\<open>net.IP.To4\<close> of the standard library: a 4-byte address is itself, a
  16-byte address that is an IPv4-mapped one gives its last four bytes, anything else
  (nil too) gives nil.\<close>

definition To4 :: "nat list option \<Rightarrow> nat list option" where
  "To4 ip =
     (case ip of
        None \<Rightarrow> None
      | Some bs \<Rightarrow>
          if length bs = 4 then Some bs
          else if length bs = 16 \<and> (\<forall>b \<in> set (take 10 bs). b = 0)
                  \<and> bs ! 10 = 255 \<and> bs ! 11 = 255
          then Some (drop 12 bs)
          else None)"

text \<open>Lines 584 to 587.\<close>

definition masterAddr :: "env \<Rightarrow> string \<Rightarrow> string \<Rightarrow> string" where
  "masterAddr e host port =
     (let host' = (if To4 (ParseIP e host) = None then ''['' @ host @ '']'' else host)
      in host' @ '':'' @ port)"

text \<open>One turn of the loop of lines 565 to 608: it ends in \<^verbatim>\<open>continue\<close>, in
  \<^verbatim>\<open>break\<close> or in a panic. \<^verbatim>\<open>time.Sleep\<close> changes nothing in the client.\<close>

datatype 's attempt = Continue 's | Break 's | Abort panic 's

definition afterFindPreferred :: "env \<Rightarrow> 'h SPool \<Rightarrow> 'h SPool attempt" where
  "afterFindPreferred e s =
     (case findPreferred e s of Panicked x s' \<Rightarrow> Abort x s' | Done _ s' \<Rightarrow> Continue s')"

definition resetAttempt :: "env \<Rightarrow> 'h SPool \<Rightarrow> 'h SPool attempt" where
  "resetAttempt e s =
     (case Dial e (clock s) (p s) of
        Some err \<Rightarrow> afterFindPreferred e (tick s)
      | None \<Rightarrow>
          (let s1 = tick s in
           case Do e (clock s1) (p s1) [''SENTINEL'', ''get-master-addr-by-name'', masterName s1] of
             Inl err \<Rightarrow> afterFindPreferred e (tick s1)
           | Inr tmpr \<Rightarrow>
               (let s2 = tick s1 in
                case asArr tmpr of
                  None \<Rightarrow> Abort RuntimeError s2
                | Some r \<Rightarrow>
                    (case strAt r 0 of
                       None \<Rightarrow> Abort RuntimeError s2
                     | Some host \<Rightarrow>
                         (case strAt r 1 of
                            None \<Rightarrow> Abort RuntimeError s2
                          | Some port \<Rightarrow>
                              (let maddr = masterAddr e host port in
                               case Dial e (clock s2) maddr of
                                 Some err \<Rightarrow> Continue (tick s2)
                               | None \<Rightarrow>
                                   (let s3 = tick s2 in
                                    case Do e (clock s3) maddr [''ROLE''] of
                                      Inl err \<Rightarrow> Continue (tick s3)
                                    | Inr tmpr' \<Rightarrow>
                                        (let s4 = tick s3 in
                                         case asArr tmpr' of
                                           None \<Rightarrow> Abort RuntimeError s4
                                         | Some r' \<Rightarrow>
                                             (case strAt r' 0 of
                                                None \<Rightarrow> Abort RuntimeError s4
                                              | Some role \<Rightarrow>
                                                  if ToUpper role \<noteq> ''MASTER''
                                                  then Continue s4
                                                  else Break (s4\<lparr>master := maddr\<rparr>))))))))))"

text \<open>The loop itself may run forever: then its value is \<open>None\<close>.\<close>

partial_function (option) resetLoop :: "env \<Rightarrow> 'h SPool \<Rightarrow> (unit, 'h SPool) outcome option" where
  "resetLoop e s =
     (case resetAttempt e s of
        Continue s' \<Rightarrow> resetLoop e s'
      | Break s' \<Rightarrow> Some (Done () s')
      | Abort x s' \<Rightarrow> Some (Panicked x s'))"

subsection \<open>The subscription registry\<close>

text \<open>\<^verbatim>\<open>s.n[ck]\<close>: the nil slice for a key that is absent.\<close>

definition lookupN :: "(string \<times> 'h list) list \<Rightarrow> string \<Rightarrow> 'h list" where
  "lookupN m ck = (case map_of m ck of None \<Rightarrow> [] | Some hs \<Rightarrow> hs)"

text \<open>Lines 687 to 692, the body of the loop over the keys.\<close>

definition remember :: "string \<Rightarrow> 'h \<Rightarrow> 'h SPool \<Rightarrow> string \<Rightarrow> 'h SPool" where
  "remember command handler s k =
     (let ck = command @ '':'' @ k;
          exists = (map_of (n s) ck \<noteq> None);
          s1 = (if \<not> exists then s\<lparr>n := AList.update ck [] (n s)\<rparr> else s)
      in s1\<lparr>n := AList.update ck (lookupN (n s1) ck @ [handler]) (n s1)\<rparr>)"

text \<open>\<^verbatim>\<open>NDo\<close> returns the error of the pool; the model returns it with the client.\<close>

definition NDo :: "env \<Rightarrow> string \<Rightarrow> 'h \<Rightarrow> string list \<Rightarrow> 'h SPool \<Rightarrow> string option \<times> 'h SPool" where
  "NDo e command handler keys s =
     (let err = poolNDo e (clock s) command keys;
          s1 = (tick s)\<lparr>sent := sent s @ [(command, keys)]\<rparr>
      in if err = None then (err, foldl (remember command handler) s1 keys) else (err, s1))"

text \<open>
  \<^verbatim>\<open>resubscribe\<close>. The outer \<^verbatim>\<open>range\<close> visits the keys the map has when the loop
  starts (the calls of \<^verbatim>\<open>NDo\<close> in the body add no key: they store under the key
  being visited); the inner \<^verbatim>\<open>range\<close> runs over the slice \<^verbatim>\<open>hs\<close> as it is
  when its key is reached. Go leaves the order of the keys open; the model takes the
  order of the association list, and the results below about the replay are about
  registries with a single key, where there is one order only.
\<close>

fun replayHandlers :: "env \<Rightarrow> string \<Rightarrow> string \<Rightarrow> 'h list \<Rightarrow> 'h SPool \<Rightarrow> 'h SPool" where
  "replayHandlers e c k [] s = s"
| "replayHandlers e c k (h # hs) s = replayHandlers e c k hs (snd (NDo e c h [k] s))"

fun replayKeys :: "env \<Rightarrow> string list \<Rightarrow> 'h SPool \<Rightarrow> (unit, 'h SPool) outcome" where
  "replayKeys e [] s = Done () s"
| "replayKeys e (ck # rest) s =
     (case map_of (n s) ck of
        None \<Rightarrow> replayKeys e rest s
      | Some hs \<Rightarrow>
          (let tmp = SplitN ck CHR '':'' 2 in
           case index tmp 0 of
             None \<Rightarrow> Panicked RuntimeError s
           | Some c \<Rightarrow>
               (case index tmp 1 of
                  None \<Rightarrow> Panicked RuntimeError s
                | Some k \<Rightarrow> replayKeys e rest (replayHandlers e c k hs s))))"

definition resubscribe :: "env \<Rightarrow> 'h SPool \<Rightarrow> (unit, 'h SPool) outcome" where
  "resubscribe e s = replayKeys e (map fst (n s)) s"

text \<open>\<^verbatim>\<open>NUnDo\<close>.\<close>

definition NUnDo :: "env \<Rightarrow> string \<Rightarrow> string list \<Rightarrow> 'h SPool \<Rightarrow> string option \<times> 'h SPool" where
  "NUnDo e command keys s =
     (let err = poolNUnDo e (clock s) command keys
      in (err, foldl (\<lambda>s' k. s'\<lparr>n := AList.delete (command @ '':'' @ k) (n s')\<rparr>) (tick s) keys))"

subsection \<open>reset, the connection factory, pubSub, bootstrap and New\<close>

definition newPool :: "'h SPool \<Rightarrow> 'h SPool" where
  "newPool s =
     s\<lparr>pool := Some (length (filter (\<lambda>ev. ev = PoolNew) (poolLog s))),
       poolLog := poolLog s @ [PoolNew]\<rparr>"

definition poolEmpty :: "'h SPool \<Rightarrow> 'h SPool" where
  "poolEmpty s = s\<lparr>poolLog := poolLog s @ [PoolEmpty]\<rparr>"

definition poolFill :: "'h SPool \<Rightarrow> 'h SPool" where
  "poolFill s = s\<lparr>poolLog := poolLog s @ [PoolFill]\<rparr>"

text \<open>Lines 557 to 564, before the loop, and lines 609 to 612, after it.\<close>

definition beforeLoop :: "'h SPool \<Rightarrow> 'h SPool" where
  "beforeLoop s =
     (let s1 = s\<lparr>State := Resetting\<rparr>;
          s2 = (if pool s1 = None \<and> length (master s1) > 0 then newPool s1 else s1);
          s3 = (if pool s2 \<noteq> None then poolEmpty s2 else s2)
      in s3\<lparr>master := []\<rparr>)"

definition afterLoop :: "env \<Rightarrow> 'h SPool \<Rightarrow> (unit, 'h SPool) outcome" where
  "afterLoop e s = resubscribe e ((poolFill (newPool s))\<lparr>State := Healthy\<rparr>)"

definition reset :: "env \<Rightarrow> 'h SPool \<Rightarrow> (unit, 'h SPool) outcome option" where
  "reset e s =
     (if State s = Resetting then Some (Done () s)
      else (case resetLoop e (beforeLoop s) of
              None \<Rightarrow> None
            | Some (Panicked x s') \<Rightarrow> Some (Panicked x s')
            | Some (Done _ s') \<Rightarrow> Some (afterLoop e s')))"

text \<open>The closure \<^verbatim>\<open>s.creator\<close> of lines 440 to 455. The connection it returns
  is modelled by the address it was dialled to.\<close>

definition creator :: "env \<Rightarrow> 'h SPool \<Rightarrow> (string, 'h SPool) outcome option" where
  "creator e s =
     (case Dial e (clock s) (master s) of
        None \<Rightarrow> Some (Done (master s) (tick s))
      | Some err \<Rightarrow>
          if HasSuffix err ''connection refused''
          then (case reset e (tick s) of
                  None \<Rightarrow> None
                | Some (Panicked x s1) \<Rightarrow> Some (Panicked x s1)
                | Some (Done _ s1) \<Rightarrow>
                    (case Dial e (clock s1) (master s1) of
                       None \<Rightarrow> Some (Done (master s1) (tick s1))
                     | Some err' \<Rightarrow>
                         Some (Panicked (Message (''failed to reset: '' @ [CHR 0x27] @ err' @ [CHR 0x27]))
                                 (tick s1))))
          else Some (Panicked (ErrorValue err) (tick s)))"

text \<open>The three handlers that \<^verbatim>\<open>pubSub\<close> registers, with the arguments
  \<^verbatim>\<open>(full, k, msg, err)\<close> of a \<^verbatim>\<open>redisn.Handler\<close>; \<open>err\<close> is \<open>None\<close> for nil.\<close>

definition isMasterName :: "'h SPool \<Rightarrow> string \<Rightarrow> bool" where
  "isMasterName s msg =
     (let msga = SplitN msg CHR '' '' 3
      in if length msga < 3 then False else msga ! 1 = masterName s)"

definition plusOdown :: "'h SPool \<Rightarrow> string \<Rightarrow> string \<Rightarrow> string \<Rightarrow> string option \<Rightarrow> 'h SPool" where
  "plusOdown s full k msg err =
     (if err \<noteq> None then s else if isMasterName s msg then s\<lparr>Up := False\<rparr> else s)"

definition minusOdown :: "'h SPool \<Rightarrow> string \<Rightarrow> string \<Rightarrow> string \<Rightarrow> string option \<Rightarrow> 'h SPool" where
  "minusOdown s full k msg err =
     (if err \<noteq> None then s else if isMasterName s msg then s\<lparr>Up := True\<rparr> else s)"

definition switchMaster :: "'h SPool \<Rightarrow> string \<Rightarrow> string \<Rightarrow> string \<Rightarrow> string option \<Rightarrow> 'h SPool" where
  "switchMaster s full k msg err =
     (if err \<noteq> None then s else if isMasterName s msg then s\<lparr>Up := True\<rparr> else s)"

text \<open>\<^verbatim>\<open>redisn\<close> calls the handler that was registered for the key a message came
  on, with the whole message \<open>full\<close>, the key, the payload and the error; a message on
  any other key reaches no handler of the monitor.\<close>

definition deliver :: "'h SPool \<Rightarrow> string \<Rightarrow> string \<Rightarrow> string \<Rightarrow> string option \<Rightarrow> 'h SPool" where
  "deliver s full k msg err =
     (if k = ''+odown'' then plusOdown s full k msg err
      else if k = ''-odown'' then minusOdown s full k msg err
      else if k = ''switch-master'' then switchMaster s full k msg err
      else s)"

definition pubSub :: "env \<Rightarrow> 'h SPool \<Rightarrow> (unit, 'h SPool) outcome option" where
  "pubSub e s =
     (case creator e s of
        None \<Rightarrow> None
      | Some (Panicked x s') \<Rightarrow> Some (Panicked x s')
      | Some (Done c s') \<Rightarrow> Some (Done () s'))"

definition notSentinel :: "string \<Rightarrow> string" where
  "notSentinel hp =
     ''the given host:port, '' @ [CHR 0x27] @ hp @ [CHR 0x27]
       @ '', failed to respond correctly to a ROLE request. The given host:port must identify itself as having the sentinel role''"

definition bootstrapBody :: "env \<Rightarrow> 'h SPool \<Rightarrow> (unit, 'h SPool) outcome" where
  "bootstrapBody e s =
     (case index (hps s) 0 of
        None \<Rightarrow> Panicked RuntimeError s
      | Some a \<Rightarrow>
          (case Dial e (clock s) a of
             Some err \<Rightarrow> Panicked (ErrorValue err) (tick s)
           | None \<Rightarrow>
               (let s1 = tick s in
                case Do e (clock s1) a [''ROLE''] of
                  Inl err \<Rightarrow> Panicked (ErrorValue err) (tick s1)
                | Inr tmpr \<Rightarrow>
                    (let s2 = tick s1 in
                     case asArr tmpr of
                       None \<Rightarrow> Panicked RuntimeError s2
                     | Some r \<Rightarrow>
                         (case strAt r 0 of
                            None \<Rightarrow> Panicked RuntimeError s2
                          | Some role \<Rightarrow>
                              if ToUpper role \<noteq> ''SENTINEL''
                              then Panicked (Message (notSentinel a)) s2
                              else findPreferred e s2)))))"

text \<open>The deferred function of \<^verbatim>\<open>bootstrap\<close> recovers a panic and panics again.\<close>

definition bootstrap :: "env \<Rightarrow> 'h SPool \<Rightarrow> (unit, 'h SPool) outcome" where
  "bootstrap e s =
     (case bootstrapBody e (s\<lparr>State := Bootstrapping\<rparr>) of
        Panicked x s' \<Rightarrow> Panicked (BootstrapFailed x) s'
      | Done u s' \<Rightarrow> Done u s')"

text \<open>The struct literal of \<^verbatim>\<open>New\<close>; the fields it does not name are zero
  (\<^verbatim>\<open>resyncDelay\<close> among them).\<close>

definition initial :: "string \<Rightarrow> string \<Rightarrow> int \<Rightarrow> int \<Rightarrow> bool \<Rightarrow> 'h SPool" where
  "initial hostPort mName sz rDelay logEnabled =
     \<lparr>State = Creating, master = [], masterName = mName, hps = [hostPort],
      size' = sz, retryDelay = rDelay, resyncDelay = 0, p = hostPort, Up = True,
      pool = None, LogEnabled = logEnabled, n = [], clock = 0, sent = [], poolLog = []\<rparr>"

definition New :: "env \<Rightarrow> string \<Rightarrow> string \<Rightarrow> int \<Rightarrow> int \<Rightarrow> int \<Rightarrow> bool \<Rightarrow> (unit, 'h SPool) outcome option" where
  "New e hostPort mName sz rDelay rsDelay logEnabled =
     (case bootstrap e (initial hostPort mName sz rDelay logEnabled) of
        Panicked x s1 \<Rightarrow> Some (Panicked x s1)
      | Done _ s1 \<Rightarrow>
          (case reset e s1 of
             None \<Rightarrow> None
           | Some (Panicked x s2) \<Rightarrow> Some (Panicked x s2)
           | Some (Done _ s2) \<Rightarrow> pubSub e s2))"

section \<open>Relations between clients, and an example world\<close>

text \<open>Sentinel discovery touches three fields only: the known addresses, the
  preferred address and the clock. \<open>others\<close> blanks them, so two clients agree on
  every other field when their \<open>others\<close> are equal.\<close>

definition others :: "'h SPool \<Rightarrow> 'h SPool" where
  "others s = s\<lparr>hps := [], clock := 0, p := []\<rparr>"

text \<open>\<open>discovery s s'\<close>: \<open>s'\<close> may come from \<open>s\<close> by discovery steps. The known
  addresses only grow at the end and stay free of duplicates, and a preferred address
  that is known stays known.\<close>

definition discovery :: "'h SPool \<Rightarrow> 'h SPool \<Rightarrow> bool" where
  "discovery s s' \<longleftrightarrow>
     others s' = others s \<and> clock s \<le> clock s' \<and> prefix (hps s) (hps s')
     \<and> (distinct (hps s) \<longrightarrow> distinct (hps s'))
     \<and> (p s \<in> set (hps s) \<longrightarrow> p s' \<in> set (hps s'))"

text \<open>\<open>registry s s'\<close>: \<open>s'\<close> differs from \<open>s\<close> in the subscription registry, the
  list of calls sent to the pool and the clock at most.\<close>

definition registry :: "'h SPool \<Rightarrow> 'h SPool \<Rightarrow> bool" where
  "registry s s' \<longleftrightarrow>
     s'\<lparr>clock := 0, n := [], sent := []\<rparr> = s\<lparr>clock := 0, n := [], sent := []\<rparr>
     \<and> clock s \<le> clock s'"

text \<open>\<open>known s s'\<close>: what every operation of the client, the handlers of the
  monitor apart, keeps true of the known addresses, the preferred one and the
  availability flag.\<close>

definition known :: "'h SPool \<Rightarrow> 'h SPool \<Rightarrow> bool" where
  "known s s' \<longleftrightarrow>
     prefix (hps s) (hps s') \<and> (distinct (hps s) \<longrightarrow> distinct (hps s'))
     \<and> (p s \<in> set (hps s) \<longrightarrow> p s' \<in> set (hps s'))
     \<and> Up s' = Up s"

text \<open>
  A world to run the client in. Every dial connects; a probe of address \<open>a\<close> takes
  \<open>lat a\<close>; the sentinels of master \<open>mymaster\<close> report the peer records \<open>peers\<close> and
  the master address \<open>host\<close>, \<open>port\<close>; the answer to \<^verbatim>\<open>ROLE\<close> at time \<open>t\<close> is
  \<open>role t\<close>; the pool accepts every subscription.
\<close>

definition exampleParseIP :: "string \<Rightarrow> nat list option" where
  "exampleParseIP h =
     (if h = ''10.0.0.5'' then Some [0, 0, 0, 0, 0, 0, 0, 0, 0, 0, 255, 255, 10, 0, 0, 5]
      else if h = ''::1'' then Some [0, 0, 0, 0, 0, 0, 0, 0, 0, 0, 0, 0, 0, 0, 0, 1]
      else None)"

definition exampleWorld ::
  "string \<Rightarrow> string \<Rightarrow> (nat \<Rightarrow> string) \<Rightarrow> reply list \<Rightarrow> (string \<Rightarrow> int option) \<Rightarrow> env" where
  "exampleWorld host port role peers lat =
     \<lparr>Dial = (\<lambda>t a. None),
      DialTimeout = (\<lambda>t a. lat a),
      Do = (\<lambda>t a args.
              if args = [''SENTINEL'', ''sentinels'', ''mymaster''] then Inr (Arr peers)
              else if args = [''SENTINEL'', ''get-master-addr-by-name'', ''mymaster'']
              then Inr (Arr [Str host, Str port])
              else if args = [''ROLE''] then Inr (Arr [Str (role t)])
              else Inl ''ERR unknown command''),
      poolNDo = (\<lambda>t c ks. None),
      poolNUnDo = (\<lambda>t c ks. None),
      ParseIP = exampleParseIP\<rparr>"

text \<open>The client as the struct literal of \<^verbatim>\<open>New\<close> makes it, with handlers that are
  numbers.\<close>

definition exampleClient :: "nat SPool" where
  "exampleClient = initial ''127.0.0.1:26379'' ''mymaster'' 10 5000000000 False"


text \<open>Scenario: the sentinel reports host \<^verbatim>\<open>::1\<close> and port \<^verbatim>\<open>6379\<close>.\<close>

definition ipv6Master :: env where
  "ipv6Master = exampleWorld ''::1'' ''6379'' (\<lambda>t. ''master'') [] (\<lambda>a. Some 5000000)"

text \<open>The clients these two scenarios end with.\<close>

definition installed :: "string \<Rightarrow> nat \<Rightarrow> nat SPool" where
  "installed addr t =
     exampleClient\<lparr>State := Healthy, master := addr, pool := Some 0, clock := t,
       poolLog := [PoolNew, PoolFill]\<rparr>"

text \<open>A world where the master \<^verbatim>\<open>10.0.0.5:6379\<close> answers \<^verbatim>\<open>master\<close> at all times;
  the same world where the old master \<^verbatim>\<open>10.0.0.9:6379\<close> refuses connections; and one
  where every dial times out.\<close>

definition steady :: env where
  "steady = exampleWorld ''10.0.0.5'' ''6379'' (\<lambda>t. ''master'') [] (\<lambda>a. Some 5000000)"



text \<open>A client with a master installed and one handler, number 7, registered for
  \<^verbatim>\<open>SUBSCRIBE\<close> on the key \<^verbatim>\<open>news\<close>.\<close>

definition subscribed :: "nat SPool" where
  "subscribed = snd (NDo steady ''SUBSCRIBE'' 7 [''news''] (installed ''10.0.0.5:6379'' 4))"

text \<open>A peer record as a sentinel sends it, host at position 3 and port at position 5;
  a world of four sentinels, where the reply to \<^verbatim>\<open>SENTINEL sentinels\<close> names the
  bootstrap address and repeats a peer, where two peers are equally fast and faster
  than the bootstrap address, and where the last peer does not connect; and the client
  after one discovery there.\<close>

definition peer :: "string \<Rightarrow> string \<Rightarrow> reply" where
  "peer h po = Arr [Str ''name'', Str (h @ '':'' @ po), Str ''ip'', Str h, Str ''port'', Str po]"

definition exampleLatency :: "string \<Rightarrow> int option" where
  "exampleLatency a =
     (if a = ''127.0.0.1:26379'' then Some 5000000
      else if a = ''10.0.0.2:26379'' then Some 2000000
      else if a = ''10.0.0.3:26379'' then Some 2000000
      else None)"

definition fourSentinels :: env where
  "fourSentinels =
     exampleWorld ''10.0.0.5'' ''6379'' (\<lambda>t. ''master'')
       [peer ''10.0.0.2'' ''26379'', peer ''127.0.0.1'' ''26379'', peer ''10.0.0.3'' ''26379'',
        peer ''10.0.0.2'' ''26379'', peer ''10.0.0.4'' ''26379'']
       exampleLatency"

definition discovered :: "nat SPool" where
  "discovered =
     exampleClient\<lparr>hps := [''127.0.0.1:26379'', ''10.0.0.2:26379'', ''10.0.0.3:26379'', ''10.0.0.4:26379''],
       p := ''10.0.0.2:26379'', clock := 6\<rparr>"

text \<open>A world for \<^verbatim>\<open>New\<close>: the bootstrap address answers \<^verbatim>\<open>sentinel\<close> to the
  \<^verbatim>\<open>ROLE\<close> query of \<^verbatim>\<open>bootstrap\<close>, sent at time 1, and the master answers
  \<^verbatim>\<open>master\<close> later.\<close>

definition bootWorld :: env where
  "bootWorld =
     exampleWorld ''10.0.0.5'' ''6379'' (\<lambda>t. if t = 1 then ''sentinel'' else ''master'') []
       (\<lambda>a. Some 5000000)"


section \<open>Proofs\<close>

subsection \<open>What discovery changes\<close>

lemma others_tick [simp]: "others (tick s) = others s"
  by (simp add: others_def tick_def)

lemma others_p [simp]: "others (s\<lparr>p := a\<rparr>) = others s"
  by (simp add: others_def)

lemma others_hps [simp]: "others (s\<lparr>hps := a\<rparr>) = others s"
  by (simp add: others_def)

lemma discovery_refl [simp]: "discovery s s"
  by (simp add: discovery_def)

lemma discovery_trans: "discovery s s' \<Longrightarrow> discovery s' s'' \<Longrightarrow> discovery s s''"
  unfolding discovery_def by (auto dest: set_mono_prefix)

lemma discovery_tick [simp]: "discovery s (tick s)"
  by (simp add: discovery_def tick_def others_def)

lemma discovery_tickI: "discovery (tick s) s' \<Longrightarrow> discovery s s'"
  by (rule discovery_trans [OF discovery_tick])

lemma discovery_append: "hp \<notin> set (hps s) \<Longrightarrow> discovery s (s\<lparr>hps := hps s @ [hp]\<rparr>)"
  by (simp add: discovery_def)

lemma discovery_pick: "a \<in> set (hps s) \<Longrightarrow> discovery s (s\<lparr>p := a\<rparr>)"
  by (simp add: discovery_def)

lemma addSentinels_discovery: "discovery s (stateOf (addSentinels xs s))"
proof (induction xs arbitrary: s)
  case Nil
  show ?case by simp
next
  case (Cons tmpv rest)
  show ?case
  proof (cases "\<exists>v h po. asArr tmpv = Some v \<and> strAt v 3 = Some h \<and> strAt v 5 = Some po")
    case False
    then show ?thesis by (auto split: option.splits)
  next
    case True
    then obtain v h po where v: "asArr tmpv = Some v" "strAt v 3 = Some h" "strAt v 5 = Some po"
      by blast
    show ?thesis
    proof (cases "h @ '':'' @ po \<in> set (hps s)")
      case True
      with v Cons.IH [of s] show ?thesis by simp
    next
      case False
      with v discovery_trans [OF discovery_append [of "h @ '':'' @ po" s] Cons.IH]
      show ?thesis by simp
    qed
  qed
qed

lemma probeAll_discovery: "set xs \<subseteq> set (hps s) \<Longrightarrow> discovery s (probeAll e xs f s)"
proof (induction xs arbitrary: s f)
  case Nil
  show ?case by simp
next
  case (Cons fhp rest)
  from Cons.prems have mem: "fhp \<in> set (hps s)" and sub: "set rest \<subseteq> set (hps s)" by auto
  have a: "discovery s (probeAll e rest g (tick s))" for g
    using Cons.IH [of "tick s" g] sub by (auto intro: discovery_tickI simp: tick_def)
  have "discovery s ((tick s)\<lparr>p := fhp\<rparr>)"
    using mem by (simp add: discovery_def tick_def others_def)
  moreover have "discovery ((tick s)\<lparr>p := fhp\<rparr>) (probeAll e rest g ((tick s)\<lparr>p := fhp\<rparr>))" for g
    using Cons.IH [of "(tick s)\<lparr>p := fhp\<rparr>" g] sub by (simp add: tick_def)
  ultimately have b: "discovery s (probeAll e rest g ((tick s)\<lparr>p := fhp\<rparr>))" for g
    by (blast intro: discovery_trans)
  show ?case using a b by (simp split: option.splits)
qed

lemma findPreferred_discovery: "discovery s (stateOf (findPreferred e s))"
proof -
  have step: "discovery s1 (stateOf
       (case addSentinels tmpa s1 of
          Panicked x s3 \<Rightarrow> Panicked x s3
        | Done u s3 \<Rightarrow> Done () (probeAll e (hps s3) second s3)))" for s1 :: "'a SPool" and tmpa
  proof (cases "addSentinels tmpa s1")
    case (Done u s3)
    with addSentinels_discovery [of s1 tmpa] have "discovery s1 s3" by simp
    moreover have "discovery s3 (probeAll e (hps s3) second s3)"
      by (rule probeAll_discovery) simp
    ultimately show ?thesis using Done by (auto intro: discovery_trans)
  next
    case (Panicked x s3)
    with addSentinels_discovery [of s1 tmpa] show ?thesis by simp
  qed
  have rest: "discovery s1 (stateOf
      (case Dial e (clock s1) (p s1) of
             Some err \<Rightarrow> Panicked (ErrorValue err) (tick s1)
           | None \<Rightarrow>
               (let s2 = tick s1 in
                case Do e (clock s2) (p s2) [''SENTINEL'', ''sentinels'', masterName s2] of
                  Inl err \<Rightarrow>
                    Panicked (Message (''Unable to get list of sentinels: '' @ err)) (tick s2)
                | Inr tmpr \<Rightarrow>
                    (case asArr tmpr of
                       None \<Rightarrow> Panicked RuntimeError (tick s2)
                     | Some tmpa \<Rightarrow>
                         (case addSentinels tmpa (tick s2) of
                            Panicked x s3 \<Rightarrow> Panicked x s3
                          | Done _ s3 \<Rightarrow> Done () (probeAll e (hps s3) second s3))))))"
    for s1 :: "'a SPool"
    using step [of "tick (tick s1)"]
    by (auto simp: Let_def split: option.splits sum.splits intro: discovery_tickI)
  show ?thesis
  proof (cases "length (p s) = 0")
    case False
    with rest [of s] show ?thesis by (simp add: findPreferred_def)
  next
    case True
    show ?thesis
    proof (cases "hps s")
      case Nil
      with True show ?thesis by (simp add: findPreferred_def)
    next
      case (Cons a as)
      then have "discovery s (s\<lparr>p := a\<rparr>)" by (intro discovery_pick) simp
      with rest [of "s\<lparr>p := a\<rparr>"] True Cons show ?thesis
        by (auto simp: findPreferred_def intro: discovery_trans)
    qed
  qed
qed


lemma asArr_Some [simp]: "asArr x = Some r \<longleftrightarrow> x = Arr r"
  by (cases x) auto

lemma afterFindPreferred_discovery:
  "afterFindPreferred e s = Continue s' \<or> afterFindPreferred e s = Abort x s' \<Longrightarrow> discovery s s'"
  using findPreferred_discovery [of s e]
  by (auto simp: afterFindPreferred_def split: outcome.splits)

lemma afterFindPreferred_no_Break [simp]: "afterFindPreferred e s \<noteq> Break s'"
  by (simp add: afterFindPreferred_def split: outcome.splits)

lemma discovery_tick2: "discovery s (tick (tick s))"
  by (simp add: discovery_def tick_def others_def)

lemma discovery_tick3: "discovery s (tick (tick (tick s)))"
  by (simp add: discovery_def tick_def others_def)

lemma discovery_tick4: "discovery s (tick (tick (tick (tick s))))"
  by (simp add: discovery_def tick_def others_def)

lemma resetAttempt_discovery:
  assumes "resetAttempt e s = Continue s' \<or> resetAttempt e s = Abort x s'"
  shows "discovery s s'"
proof -
  have a: "afterFindPreferred e (tick s) = Continue s' \<or> afterFindPreferred e (tick s) = Abort x s'
            \<Longrightarrow> discovery s s'"
    by (blast intro: discovery_tickI afterFindPreferred_discovery)
  have b: "afterFindPreferred e (tick (tick s)) = Continue s' \<or> afterFindPreferred e (tick (tick s)) = Abort x s'
            \<Longrightarrow> discovery s s'"
    by (blast intro: discovery_tickI afterFindPreferred_discovery)
  from assms show ?thesis
    unfolding resetAttempt_def Let_def
    by (auto split: option.splits sum.splits if_splits
             intro: a b discovery_tick2 discovery_tick3 discovery_tick4)
qed

lemma resetAttempt_Break:
  assumes "resetAttempt e s = Break s'"
  shows "\<exists>r host port r' role.
           Dial e (clock s) (p s) = None
         \<and> Do e (clock s + 1) (p s) [''SENTINEL'', ''get-master-addr-by-name'', masterName s] = Inr (Arr r)
         \<and> strAt r 0 = Some host \<and> strAt r 1 = Some port
         \<and> Dial e (clock s + 2) (masterAddr e host port) = None
         \<and> Do e (clock s + 3) (masterAddr e host port) [''ROLE''] = Inr (Arr r')
         \<and> strAt r' 0 = Some role \<and> ToUpper role = ''MASTER''
         \<and> s' = s\<lparr>master := masterAddr e host port, clock := clock s + 4\<rparr>"
  using assms unfolding resetAttempt_def Let_def
  by (auto simp: tick_def eval_nat_numeral split: option.splits sum.splits if_splits)

lemma resetLoop_result:
  assumes "resetLoop e s = Some out"
  shows "\<exists>sk. discovery s sk \<and>
       ((\<exists>x. out = Panicked x sk) \<or> (\<exists>s'. out = Done () s' \<and> resetAttempt e sk = Break s'))"
  using assms
proof (induction rule: resetLoop.raw_induct [rotated 1, consumes 1, case_names step])
  case (step loop e s out)
  note 1 = this
  show ?case
  proof (cases "resetAttempt e s")
    case (Continue s1)
    with 1(2) have "loop e s1 = Some out" by simp
    from 1(1) [OF this] obtain sk where sk: "discovery s1 sk"
      "(\<exists>x. out = Panicked x sk) \<or> (\<exists>s'. out = Done () s' \<and> resetAttempt e sk = Break s')"
      by blast
    from Continue have "discovery s s1" by (blast intro: resetAttempt_discovery)
    with sk show ?thesis by (blast intro: discovery_trans)
  next
    case (Break s1)
    with 1(2) have "out = Done () s1" by simp
    with Break show ?thesis by (intro exI [of _ s]) simp
  next
    case (Abort x s1)
    with 1(2) have "out = Panicked x s1" by simp
    moreover from Abort have "discovery s s1" by (blast intro: resetAttempt_discovery)
    ultimately show ?thesis by blast
  qed
qed


lemma registry_refl [simp]: "registry s s"
  by (simp add: registry_def)

lemma registry_trans: "registry s s' \<Longrightarrow> registry s' s'' \<Longrightarrow> registry s s''"
  by (auto simp: registry_def)

lemma registry_fields:
  assumes "registry s s'"
  shows "master s' = master s" "hps s' = hps s" "p s' = p s" "State s' = State s"
    "Up s' = Up s" "pool s' = pool s" "poolLog s' = poolLog s" "masterName s' = masterName s"
    "clock s \<le> clock s'"
proof -
  from assms have eq: "s'\<lparr>clock := 0, n := [], sent := []\<rparr> = s\<lparr>clock := 0, n := [], sent := []\<rparr>"
    and le: "clock s \<le> clock s'" by (simp_all add: registry_def)
  show "master s' = master s" using arg_cong [OF eq, of master] by simp
  show "hps s' = hps s" using arg_cong [OF eq, of hps] by simp
  show "p s' = p s" using arg_cong [OF eq, of p] by simp
  show "State s' = State s" using arg_cong [OF eq, of State] by simp
  show "Up s' = Up s" using arg_cong [OF eq, of Up] by simp
  show "pool s' = pool s" using arg_cong [OF eq, of pool] by simp
  show "poolLog s' = poolLog s" using arg_cong [OF eq, of poolLog] by simp
  show "masterName s' = masterName s" using arg_cong [OF eq, of masterName] by simp
  show "clock s \<le> clock s'" by (rule le)
qed

lemma remember_registry: "registry s (remember c h s k)"
  by (simp add: registry_def remember_def Let_def)

lemma foldl_remember_registry: "registry s (foldl (remember c h) s ks)"
proof (induction ks arbitrary: s)
  case Nil
  show ?case by simp
next
  case (Cons k ks)
  from remember_registry [of s c h k] Cons.IH [of "remember c h s k"]
  show ?case by (auto intro: registry_trans)
qed

lemma NDo_registry: "registry s (snd (NDo e c h ks s))"
proof -
  have "registry s ((tick s)\<lparr>sent := sent s @ [(c, ks)]\<rparr>)"
    by (simp add: registry_def tick_def)
  with foldl_remember_registry [of "(tick s)\<lparr>sent := sent s @ [(c, ks)]\<rparr>" c h ks]
  show ?thesis by (auto simp: NDo_def Let_def intro: registry_trans)
qed

lemma replayHandlers_registry: "registry s (replayHandlers e c k hs s)"
proof (induction hs arbitrary: s)
  case Nil
  show ?case by simp
next
  case (Cons h hs)
  from NDo_registry [of s e c h "[k]"] Cons.IH [of "snd (NDo e c h [k] s)"]
  show ?case by (auto intro: registry_trans)
qed

lemma replayKeys_registry: "registry s (stateOf (replayKeys e cks s))"
proof (induction cks arbitrary: s)
  case Nil
  show ?case by simp
next
  case (Cons ck cks)
  have "registry s (stateOf (replayKeys e cks (replayHandlers e c k hs s)))" for c k hs
    using replayHandlers_registry [of s e c k hs] Cons.IH [of "replayHandlers e c k hs s"]
    by (auto intro: registry_trans)
  with Cons.IH [of s] show ?case
    by (auto simp: Let_def split: option.splits)
qed

lemma resubscribe_registry: "registry s (stateOf (resubscribe e s))"
  by (simp add: resubscribe_def replayKeys_registry)

lemma NUnDo_registry: "registry s (snd (NUnDo e c ks s))"
proof -
  have "registry s' (foldl (\<lambda>s' k. s'\<lparr>n := AList.delete (c @ '':'' @ k) (n s')\<rparr>) s' ks)"
    for s' :: "'a SPool"
  proof (induction ks arbitrary: s')
    case Nil
    show ?case by simp
  next
    case (Cons k ks)
    have "registry s' (s'\<lparr>n := AList.delete (c @ '':'' @ k) (n s')\<rparr>)"
      by (simp add: registry_def)
    with Cons.IH [of "s'\<lparr>n := AList.delete (c @ '':'' @ k) (n s')\<rparr>"]
    show ?case by (auto intro: registry_trans)
  qed
  from this [of "tick s"] have "registry (tick s) (snd (NUnDo e c ks s))"
    by (simp add: NUnDo_def Let_def)
  moreover have "registry s (tick s)" by (simp add: registry_def tick_def)
  ultimately show ?thesis by (rule registry_trans [rotated])
qed

lemma discovery_fields:
  assumes "discovery s s'"
  shows "master s' = master s" "State s' = State s" "Up s' = Up s" "pool s' = pool s"
    "poolLog s' = poolLog s" "masterName s' = masterName s" "n s' = n s" "sent s' = sent s"
    "clock s \<le> clock s'"
proof -
  from assms have eq: "others s' = others s" and le: "clock s \<le> clock s'"
    by (simp_all add: discovery_def)
  show "master s' = master s" using arg_cong [OF eq, of master] by (simp add: others_def)
  show "State s' = State s" using arg_cong [OF eq, of State] by (simp add: others_def)
  show "Up s' = Up s" using arg_cong [OF eq, of Up] by (simp add: others_def)
  show "pool s' = pool s" using arg_cong [OF eq, of pool] by (simp add: others_def)
  show "poolLog s' = poolLog s" using arg_cong [OF eq, of poolLog] by (simp add: others_def)
  show "masterName s' = masterName s" using arg_cong [OF eq, of masterName] by (simp add: others_def)
  show "n s' = n s" using arg_cong [OF eq, of n] by (simp add: others_def)
  show "sent s' = sent s" using arg_cong [OF eq, of sent] by (simp add: others_def)
  show "clock s \<le> clock s'" by (rule le)
qed

lemma beforeLoop_fields [simp]:
  "State (beforeLoop s) = Resetting" "master (beforeLoop s) = []" "hps (beforeLoop s) = hps s"
  "p (beforeLoop s) = p s" "clock (beforeLoop s) = clock s" "masterName (beforeLoop s) = masterName s"
  "Up (beforeLoop s) = Up s" "n (beforeLoop s) = n s"
  by (simp_all add: beforeLoop_def Let_def newPool_def poolEmpty_def)

lemma afterLoop_fields:
  "master (stateOf (afterLoop e s)) = master s" "hps (stateOf (afterLoop e s)) = hps s"
  "p (stateOf (afterLoop e s)) = p s" "clock s \<le> clock (stateOf (afterLoop e s))"
  "masterName (stateOf (afterLoop e s)) = masterName s" "Up (stateOf (afterLoop e s)) = Up s"
  using registry_fields [OF resubscribe_registry [of "(poolFill (newPool s))\<lparr>State := Healthy\<rparr>" e]]
  by (simp_all add: afterLoop_def newPool_def poolFill_def)

lemma reset_cases:
  assumes "reset e s = Some out" and "State s \<noteq> Resetting"
  obtains (panic) x sk where "out = Panicked x sk" "discovery (beforeLoop s) sk"
  | (installed) sk s5 where "out = afterLoop e s5" "discovery (beforeLoop s) sk"
      "resetAttempt e sk = Break s5"
proof -
  from assms obtain lo where lo: "resetLoop e (beforeLoop s) = Some lo"
    by (auto simp: reset_def split: option.splits)
  from resetLoop_result [OF lo] obtain sk where sk: "discovery (beforeLoop s) sk"
    "(\<exists>x. lo = Panicked x sk) \<or> (\<exists>s'. lo = Done () s' \<and> resetAttempt e sk = Break s')"
    by blast
  from sk(2) show thesis
  proof
    assume "\<exists>x. lo = Panicked x sk"
    then obtain x where "lo = Panicked x sk" by blast
    with assms lo have "out = Panicked x sk" by (simp add: reset_def)
    then show thesis using sk(1) by (rule panic)
  next
    assume "\<exists>s'. lo = Done () s' \<and> resetAttempt e sk = Break s'"
    then obtain s5 where s5: "lo = Done () s5" "resetAttempt e sk = Break s5" by blast
    with assms lo have "out = afterLoop e s5" by (simp add: reset_def)
    then show thesis using sk(1) s5(2) by (rule installed)
  qed
qed

subsection \<open>The example world\<close>

lemma upper_master [simp]: "ToUpper ''master'' = ''MASTER''"
  by code_simp

lemma upper_slave [simp]: "ToUpper ''slave'' \<noteq> ''MASTER''"
  by code_simp

lemma upper_sentinel [simp]: "ToUpper ''sentinel'' = ''SENTINEL''"
  by code_simp

lemma To4_examples [simp]:
  "To4 (exampleParseIP ''10.0.0.5'') = Some [10, 0, 0, 5]"
  "To4 (exampleParseIP ''::1'') = None"
  by (simp_all add: To4_def exampleParseIP_def)

lemmas run_defs =
  reset_def beforeLoop_def afterLoop_def resubscribe_def exampleClient_def initial_def
  resetAttempt_def exampleWorld_def tick_def masterAddr_def strAt_def index_def
  newPool_def poolFill_def poolEmpty_def Let_def


lemma ipv6Master_run:
  "reset ipv6Master exampleClient =
     Some (Done () (installed ''[::1]:6379'' 4))"
  by (simp add: ipv6Master_def installed_def run_defs resetLoop.simps)

lemma exampleClient_fields [simp]:
  "State exampleClient = Creating" "clock exampleClient = 0" "master exampleClient = []"
  "p exampleClient = ''127.0.0.1:26379''" "hps exampleClient = [''127.0.0.1:26379'']"
  "masterName exampleClient = ''mymaster''" "n exampleClient = []" "sent exampleClient = []"
  "Up exampleClient" "pool exampleClient = None" "poolLog exampleClient = []"
  by (simp_all add: exampleClient_def initial_def)

lemma installed_fields [simp]:
  "master (installed addr t) = addr" "clock (installed addr t) = t"
  "State (installed addr t) = Healthy" "hps (installed addr t) = [''127.0.0.1:26379'']"
  "p (installed addr t) = ''127.0.0.1:26379''"
  by (simp_all add: installed_def)

subsection \<open>Splitting, and the registry\<close>


lemma takeWhile_until: "c \<notin> set xs \<Longrightarrow> takeWhile (\<lambda>x. x \<noteq> c) (xs @ c # ys) = xs"
  by (induction xs) auto

lemma dropWhile_until: "c \<notin> set xs \<Longrightarrow> dropWhile (\<lambda>x. x \<noteq> c) (xs @ c # ys) = c # ys"
  by (induction xs) auto



lemma SplitN_fields3:
  "sp \<notin> set f0 \<Longrightarrow> sp \<notin> set f1 \<Longrightarrow> SplitN (f0 @ sp # f1 @ sp # rest) sp 3 = [f0, f1, rest]"
  by (simp add: numeral_3_eq_3 takeWhile_until dropWhile_until)

lemma remember_sent [simp]: "sent (remember c h s k) = sent s"
  by (simp add: remember_def Let_def)

lemma remember_clock [simp]: "clock (remember c h s k) = clock s"
  by (simp add: remember_def Let_def)

lemma foldl_remember_sent [simp]: "sent (foldl (remember c h) s ks) = sent s"
  by (induction ks arbitrary: s) simp_all

lemma foldl_remember_clock [simp]: "clock (foldl (remember c h) s ks) = clock s"
  by (induction ks arbitrary: s) simp_all

lemma NDo_sent [simp]: "sent (snd (NDo e c h ks s)) = sent s @ [(c, ks)]"
  by (simp add: NDo_def Let_def tick_def)

lemma NDo_clock [simp]: "clock (snd (NDo e c h ks s)) = Suc (clock s)"
  by (simp add: NDo_def Let_def tick_def)



lemma isMasterName_fields:
  "CHR '' '' \<notin> set kind \<Longrightarrow> CHR '' '' \<notin> set name \<Longrightarrow>
     isMasterName s (kind @ '' '' @ name @ '' '' @ rest) \<longleftrightarrow> name = masterName s"
  using SplitN_fields3 [of "CHR '' ''" kind name rest]
  by (simp add: isMasterName_def Let_def)

lemma deliver_irrelevant: "\<not> isMasterName s msg \<Longrightarrow> deliver s full k msg err = s"
  by (simp add: deliver_def plusOdown_def minusOdown_def switchMaster_def)

lemma installed_more [simp]:
  "masterName (installed addr t) = ''mymaster''" "Up (installed addr t)"
  "n (installed addr t) = []" "sent (installed addr t) = []"
  "pool (installed addr t) = Some 0" "poolLog (installed addr t) = [PoolNew, PoolFill]"
  by (simp_all add: installed_def)


lemma subscribed_eq:
  "subscribed = (installed ''10.0.0.5:6379'' 5)\<lparr>n := [(''SUBSCRIBE:news'', [7])],
      sent := [(''SUBSCRIBE'', [''news''])]\<rparr>"
  by (simp add: subscribed_def NDo_def steady_def exampleWorld_def installed_def tick_def
      remember_def lookupN_def Let_def)

subsection \<open>Known addresses and the preferred one\<close>

lemma known_refl [simp]: "known s s"
  by (simp add: known_def)

lemma known_trans: "known s s' \<Longrightarrow> known s' s'' \<Longrightarrow> known s s''"
  unfolding known_def by auto

lemma known_same: "hps s' = hps s \<Longrightarrow> p s' = p s \<Longrightarrow> Up s' = Up s \<Longrightarrow> known s s'"
  by (simp add: known_def)

lemma discovery_known: "discovery s s' \<Longrightarrow> known s s'"
  using discovery_fields(3) [of s s'] by (simp add: discovery_def known_def)

lemma registry_known: "registry s s' \<Longrightarrow> known s s'"
  by (simp add: known_same registry_fields)

lemma findPreferred_known: "known s (stateOf (findPreferred e s))"
  by (simp add: discovery_known findPreferred_discovery)

lemma afterLoop_known: "known s (stateOf (afterLoop e s))"
  by (simp add: known_same afterLoop_fields)

lemma reset_known:
  assumes "reset e s = Some out"
  shows "known s (stateOf out)"
proof (cases "State s = Resetting")
  case True
  with assms show ?thesis by (auto simp: reset_def)
next
  case False
  have b: "known s (beforeLoop s)" by (simp add: known_same)
  from assms False show ?thesis
  proof (cases rule: reset_cases)
    case (panic x sk)
    with b show ?thesis by (auto intro: known_trans discovery_known)
  next
    case (installed sk s5)
    from resetAttempt_Break [OF installed(3)] obtain a where
      "s5 = sk\<lparr>master := a, clock := clock sk + 4\<rparr>" by blast
    then have "known sk s5" by (simp add: known_same)
    with b installed(2) have "known s s5" by (blast intro: known_trans discovery_known)
    with installed(1) afterLoop_known [of s5 e] show ?thesis by (auto intro: known_trans)
  qed
qed

lemma known_tick [simp]: "known s (tick s)"
  by (simp add: known_same tick_def)

lemma creator_known:
  assumes "creator e s = Some out"
  shows "known s (stateOf out)"
proof (cases "Dial e (clock s) (master s)")
  case None
  with assms show ?thesis by (auto simp: creator_def)
next
  case (Some err)
  show ?thesis
  proof (cases "HasSuffix err ''connection refused''")
    case False
    with Some assms show ?thesis by (auto simp: creator_def)
  next
    case True
    with Some assms obtain ro where ro: "reset e (tick s) = Some ro"
      by (auto simp: creator_def split: option.splits)
    from reset_known [OF ro] have k: "known s (stateOf ro)"
      by (blast intro: known_trans known_tick)
    show ?thesis
    proof (cases ro)
      case (Panicked x s1)
      with Some True assms ro k show ?thesis by (auto simp: creator_def)
    next
      case (Done u s1)
      with k have "known s (tick s1)" by (auto intro: known_trans known_tick)
      with Done Some True assms ro show ?thesis
        by (auto simp: creator_def split: option.splits)
    qed
  qed
qed

lemma pubSub_known:
  assumes "pubSub e s = Some out"
  shows "known s (stateOf out)"
proof -
  from assms obtain co where co: "creator e s = Some co" and "stateOf out = stateOf co"
    by (auto simp: pubSub_def split: option.splits outcome.splits)
  with creator_known [OF co] show ?thesis by simp
qed

lemma bootstrap_known: "known s (stateOf (bootstrap e s))"
proof -
  have "known s' (stateOf (bootstrapBody e s'))" for s' :: "'a SPool"
    using findPreferred_known [of "tick (tick s')" e]
    by (auto simp: bootstrapBody_def Let_def split: option.splits sum.splits
             intro: known_trans [OF known_tick] known_trans [OF known_tick known_trans [OF known_tick]])
  from this [of "s\<lparr>State := Bootstrapping\<rparr>"]
  have "known (s\<lparr>State := Bootstrapping\<rparr>) (stateOf (bootstrap e s))"
    by (cases "bootstrapBody e (s\<lparr>State := Bootstrapping\<rparr>)") (simp_all add: bootstrap_def)
  moreover have "known s (s\<lparr>State := Bootstrapping\<rparr>)" by (simp add: known_same)
  ultimately show ?thesis by (blast intro: known_trans)
qed

lemma New_known:
  assumes "New e hostPort mName sz rDelay rsDelay logEnabled = Some out"
  shows "known (initial hostPort mName sz rDelay logEnabled) (stateOf out)"
proof -
  let ?i = "initial hostPort mName sz rDelay logEnabled :: 'a SPool"
  note b = bootstrap_known [of ?i e]
  show ?thesis
  proof (cases "bootstrap e ?i")
    case (Panicked x s1)
    with assms b show ?thesis by (auto simp: New_def)
  next
    case (Done u s1)
    with b have k1: "known ?i s1" by simp
    from Done assms obtain ro where ro: "reset e s1 = Some ro"
      by (auto simp: New_def split: option.splits)
    from reset_known [OF ro] k1 have k2: "known ?i (stateOf ro)" by (blast intro: known_trans)
    show ?thesis
    proof (cases ro)
      case (Panicked x s2)
      with Done assms ro k2 show ?thesis by (auto simp: New_def)
    next
      case Done2: (Done u2 s2)
      with Done assms ro have "pubSub e s2 = Some out" by (simp add: New_def)
      from pubSub_known [OF this] k2 Done2 show ?thesis by (auto intro: known_trans)
    qed
  qed
qed

lemma deliver_topology: "hps (deliver s full k msg err) = hps s \<and> p (deliver s full k msg err) = p s"
  by (simp add: deliver_def plusOdown_def minusOdown_def switchMaster_def)

lemma fourSentinels_run: "findPreferred fourSentinels exampleClient = Done () discovered"
  by (simp add: findPreferred_def fourSentinels_def exampleWorld_def exampleClient_def initial_def
      discovered_def peer_def exampleLatency_def tick_def strAt_def index_def second_def Let_def)

lemma addSentinels_p: "p (stateOf (addSentinels xs s)) = p s"
  by (induction xs arbitrary: s) (auto simp: Let_def split: option.splits)

lemma probeAll_none_faster:
  assumes "\<And>t a. DialTimeout e t a = lat a"
    and "\<forall>x \<in> set xs. \<forall>d. lat x = Some d \<longrightarrow> f \<le> d"
  shows "p (probeAll e xs f s) = p s"
  using assms(2)
proof (induction xs arbitrary: s)
  case Nil
  show ?case by simp
next
  case (Cons x xs)
  then have "p (probeAll e xs f (tick s)) = p (tick s)" by simp
  with Cons.prems show ?case
    by (auto simp: assms(1) tick_def split: option.splits)
qed

lemma probeAll_first_fastest:
  assumes fixed: "\<And>t a. DialTimeout e t a = lat a"
  shows "i < length xs \<Longrightarrow> lat (xs ! i) = Some d \<Longrightarrow> d < f
     \<Longrightarrow> \<forall>j<i. \<forall>d'. lat (xs ! j) = Some d' \<longrightarrow> d < d'
     \<Longrightarrow> \<forall>j<length xs. \<forall>d'. lat (xs ! j) = Some d' \<longrightarrow> d \<le> d'
     \<Longrightarrow> p (probeAll e xs f s) = xs ! i"
proof (induction xs arbitrary: i f s)
  case Nil
  then show ?case by simp
next
  case (Cons x xs)
  show ?case
  proof (cases i)
    case 0
    with Cons.prems have x: "lat x = Some d" "d < f" by simp_all
    have "\<forall>y \<in> set xs. \<forall>d'. lat y = Some d' \<longrightarrow> d \<le> d'"
    proof (intro ballI allI impI)
      fix y d' assume "y \<in> set xs" "lat y = Some d'"
      then obtain j where "j < length xs" "xs ! j = y" by (auto simp: in_set_conv_nth)
      with Cons.prems(5) \<open>lat y = Some d'\<close> show "d \<le> d'"
        by (auto dest!: spec [of _ "Suc j"])
    qed
    from probeAll_none_faster [OF fixed this, of "(tick s)\<lparr>p := x\<rparr>"]
    show ?thesis using x 0 by (simp add: fixed)
  next
    case (Suc i')
    with Cons.prems have i': "i' < length xs" "lat (xs ! i') = Some d" by simp_all
    have before: "\<forall>j<i'. \<forall>d'. lat (xs ! j) = Some d' \<longrightarrow> d < d'"
    proof (intro allI impI)
      fix j d' assume "j < i'" "lat (xs ! j) = Some d'"
      with Cons.prems(4) [rule_format, of "Suc j" d'] Suc show "d < d'" by simp
    qed
    have all: "\<forall>j<length xs. \<forall>d'. lat (xs ! j) = Some d' \<longrightarrow> d \<le> d'"
    proof (intro allI impI)
      fix j d' assume "j < length xs" "lat (xs ! j) = Some d'"
      with Cons.prems(5) [rule_format, of "Suc j" d'] show "d \<le> d'" by simp
    qed
    have head: "\<forall>d'. lat x = Some d' \<longrightarrow> d < d'"
      using Cons.prems(4) [rule_format, of 0] Suc by simp
    have a: "p (probeAll e xs g s') = xs ! i'" if "d < g" for g and s' :: "'a SPool"
      using Cons.IH [OF i' that before all] .
    show ?thesis
      using Suc head a Cons.prems(3)
      by (auto simp: fixed split: option.splits)
  qed
qed

lemma probeAll_hps: "hps (probeAll e xs f s) = hps s"
  by (induction xs arbitrary: s f) (auto simp: tick_def split: option.splits)

lemma findPreferred_Done:
  assumes "findPreferred e s = Done u s'"
  shows "\<exists>s3. s' = probeAll e (hps s3) second s3
            \<and> p s3 = (if p s = [] then hd (hps s) else p s)"
proof -
  have rest: "\<exists>s3. s' = probeAll e (hps s3) second s3 \<and> p s3 = p s1"
    if "(case Dial e (clock s1) (p s1) of
             Some err \<Rightarrow> Panicked (ErrorValue err) (tick s1)
           | None \<Rightarrow>
               (let s2 = tick s1 in
                case Do e (clock s2) (p s2) [''SENTINEL'', ''sentinels'', masterName s2] of
                  Inl err \<Rightarrow>
                    Panicked (Message (''Unable to get list of sentinels: '' @ err)) (tick s2)
                | Inr tmpr \<Rightarrow>
                    (case asArr tmpr of
                       None \<Rightarrow> Panicked RuntimeError (tick s2)
                     | Some tmpa \<Rightarrow>
                         (case addSentinels tmpa (tick s2) of
                            Panicked x s3 \<Rightarrow> Panicked x s3
                          | Done _ s3 \<Rightarrow> Done () (probeAll e (hps s3) second s3))))) = Done u s'"
    for s1 :: "'a SPool"
  proof -
    from that obtain tmpa u3 s3 where
      a: "addSentinels tmpa (tick (tick s1)) = Done u3 s3"
      and s': "s' = probeAll e (hps s3) second s3"
      by (auto simp: Let_def split: option.splits sum.splits outcome.splits)
    from addSentinels_p [of tmpa "tick (tick s1)"] a have "p s3 = p s1" by (simp add: tick_def)
    with s' show ?thesis by blast
  qed
  show ?thesis
  proof (cases "p s = []")
    case False
    with assms rest [of s] show ?thesis by (simp add: findPreferred_def)
  next
    case True
    with assms obtain a as where c: "hps s = a # as"
      by (cases "hps s") (simp_all add: findPreferred_def)
    with True assms rest [of "s\<lparr>p := a\<rparr>"] show ?thesis by (simp add: findPreferred_def)
  qed
qed

subsection \<open>What a finished reset has checked\<close>



lemma bootWorld_run:
  "New bootWorld ''127.0.0.1:26379'' ''mymaster'' 10 5000000000 100000000 False
     = Some (Done () (installed ''10.0.0.5:6379'' 10))"
  by (simp add: New_def bootstrap_def bootstrapBody_def findPreferred_def pubSub_def creator_def
      bootWorld_def installed_def second_def run_defs resetLoop.simps)




section \<open>The claims\<close>

subsection \<open>C1: only a verified master is installed\<close>




subsection \<open>C2: reset inside reset\<close>



subsection \<open>C9: the form of the master address\<close>

text \<open>
  Claim C9. When \<^verbatim>\<open>reset\<close>, started outside the state Resetting, returns, the
  installed master address comes from a reply to \<^verbatim>\<open>get-master-addr-by-name\<close> received
  during the run, with host \<open>h\<close> and port \<open>q\<close>: it is \<open>h:q\<close> when
  \<^verbatim>\<open>net.ParseIP(h).To4()\<close> is not nil, and \<open>[h]:q\<close> otherwise. The witness runs the
  client against a sentinel that reports host \<^verbatim>\<open>::1\<close> and port \<^verbatim>\<open>6379\<close>: the address
  installed is \<^verbatim>\<open>[::1]:6379\<close>.
\<close>

theorem master_address_bracketed:
  assumes "reset e s = Some (Done u s')" and "State s \<noteq> Resetting"
  shows "\<exists>t a r host port. clock s \<le> t \<and> t < clock s'
           \<and> Do e t a [''SENTINEL'', ''get-master-addr-by-name'', masterName s] = Inr (Arr r)
           \<and> strAt r 0 = Some host \<and> strAt r 1 = Some port
           \<and> master s' = (if To4 (ParseIP e host) = None
                           then ''['' @ host @ '']:'' @ port
                           else host @ '':'' @ port)"
  using assms
proof (cases rule: reset_cases)
  case (panic x sk)
  then show ?thesis by simp
next
  case (installed sk s5)
  from resetAttempt_Break [OF installed(3)] obtain r host port where
    b: "Do e (clock sk + 1) (p sk) [''SENTINEL'', ''get-master-addr-by-name'', masterName sk] = Inr (Arr r)"
       "strAt r 0 = Some host" "strAt r 1 = Some port"
       "s5 = sk\<lparr>master := masterAddr e host port, clock := clock sk + 4\<rparr>"
    by blast
  have s': "s' = stateOf (afterLoop e s5)" using installed(1) [symmetric] by simp
  have m: "master s' = masterAddr e host port"
    using b(4) by (simp add: s' afterLoop_fields)
  have nm: "masterName sk = masterName s"
    using discovery_fields(6) [OF installed(2)] by simp
  have c1: "clock s \<le> clock sk + 1"
    using discovery_fields(9) [OF installed(2)] by simp
  have c2: "clock sk + 1 < clock s'"
    using afterLoop_fields(4) [of s5 e] b(4) by (simp add: s')
  show ?thesis
    using b(1-3) c1 c2 unfolding m nm
    by (intro exI [of _ "clock sk + 1"] exI [of _ "p sk"] exI [of _ r] exI [of _ host] exI [of _ port])
       (simp add: masterAddr_def Let_def)
qed

theorem master_address_bracketed_witness:
  "reset ipv6Master exampleClient = Some (Done () (installed ''[::1]:6379'' 4))
   \<and> State exampleClient \<noteq> Resetting
   \<and> master (installed ''[::1]:6379'' 4) = ''[::1]:6379''
   \<and> Do ipv6Master 1 ''127.0.0.1:26379'' [''SENTINEL'', ''get-master-addr-by-name'', ''mymaster'']
       = Inr (Arr [Str ''::1'', Str ''6379''])
   \<and> To4 (ParseIP ipv6Master ''::1'') = None
   \<and> (\<exists>t a r host port. clock exampleClient \<le> t \<and> t < clock (installed ''[::1]:6379'' 4)
         \<and> Do ipv6Master t a [''SENTINEL'', ''get-master-addr-by-name'', masterName exampleClient]
             = Inr (Arr r)
         \<and> strAt r 0 = Some host \<and> strAt r 1 = Some port
         \<and> master (installed ''[::1]:6379'' 4)
             = (if To4 (ParseIP ipv6Master host) = None
                then ''['' @ host @ '']:'' @ port
                else host @ '':'' @ port))"
proof -
  have st: "State exampleClient \<noteq> Resetting" by simp
  note th = master_address_bracketed [OF ipv6Master_run st]
  have m: "master (installed ''[::1]:6379'' 4) = ''[::1]:6379''" by simp
  have d: "Do ipv6Master 1 ''127.0.0.1:26379'' [''SENTINEL'', ''get-master-addr-by-name'', ''mymaster'']
       = Inr (Arr [Str ''::1'', Str ''6379''])"
    by (simp add: ipv6Master_def exampleWorld_def)
  have q: "To4 (ParseIP ipv6Master ''::1'') = None"
    by (simp add: ipv6Master_def exampleWorld_def)
  show ?thesis by (intro conjI ipv6Master_run st m d q th)
qed

subsection \<open>C10: the composite key of the registry\<close>



subsection \<open>C7: the availability flag\<close>

text \<open>
  Claim C7. The struct literal of \<^verbatim>\<open>New\<close> sets \<^verbatim>\<open>Up\<close> to true. A message that
  arrives without error and reads \<open>kind\<close>, a space, the configured master name, a
  space, and any rest (no space inside \<open>kind\<close> or the name) changes the client in the
  flag only: on \<^verbatim>\<open>+odown\<close> the flag becomes false, on \<^verbatim>\<open>-odown\<close> and on
  \<^verbatim>\<open>switch-master\<close> it becomes true. A message that \<^verbatim>\<open>strings.SplitN(msg, " ", 3)\<close>
  cuts into fewer than three fields, or whose second field is not the configured name,
  leaves the client as it is, on every key and with or without an error: the handlers
  return, nothing panics. Nothing but these handlers writes the flag: discovery,
  \<^verbatim>\<open>bootstrap\<close>, \<^verbatim>\<open>reset\<close>, the connection factory, \<^verbatim>\<open>pubSub\<close>, \<^verbatim>\<open>NDo\<close>,
  \<^verbatim>\<open>NUnDo\<close> and \<^verbatim>\<open>resubscribe\<close> leave it as it is, and it is true in the client
  that \<^verbatim>\<open>New\<close> ends with.
\<close>

theorem availability_flag:
  "Up (initial hostPort mName sz rDelay logEnabled :: 'h SPool)
   \<and> (CHR '' '' \<notin> set kind \<and> CHR '' '' \<notin> set (masterName (s :: 'h SPool)) \<longrightarrow>
        deliver s full ''+odown'' (kind @ '' '' @ masterName s @ '' '' @ rest) None = s\<lparr>Up := False\<rparr>
      \<and> deliver s full ''-odown'' (kind @ '' '' @ masterName s @ '' '' @ rest) None = s\<lparr>Up := True\<rparr>
      \<and> deliver s full ''switch-master'' (kind @ '' '' @ masterName s @ '' '' @ rest) None = s\<lparr>Up := True\<rparr>)
   \<and> (length (SplitN msg CHR '' '' 3) < 3 \<or> SplitN msg CHR '' '' 3 ! 1 \<noteq> masterName s
        \<longrightarrow> deliver s full k msg err = s)
   \<and> Up (stateOf (findPreferred e s)) = Up s
   \<and> Up (stateOf (bootstrap e s)) = Up s
   \<and> (\<forall>out. reset e s = Some out \<longrightarrow> Up (stateOf out) = Up s)
   \<and> (\<forall>out. creator e s = Some out \<longrightarrow> Up (stateOf out) = Up s)
   \<and> (\<forall>out. pubSub e s = Some out \<longrightarrow> Up (stateOf out) = Up s)
   \<and> Up (snd (NDo e c h ks s)) = Up s
   \<and> Up (snd (NUnDo e c ks s)) = Up s
   \<and> Up (stateOf (resubscribe e s)) = Up s
   \<and> (\<forall>out :: (unit, 'h SPool) outcome.
         New e hostPort mName sz rDelay rsDelay logEnabled = Some out \<longrightarrow> Up (stateOf out))"
proof -
  have a: "Up (initial hostPort mName sz rDelay logEnabled :: 'h SPool)"
    by (simp add: initial_def)
  have b: "deliver s full ''+odown'' (kind @ '' '' @ masterName s @ '' '' @ rest) None = s\<lparr>Up := False\<rparr>
      \<and> deliver s full ''-odown'' (kind @ '' '' @ masterName s @ '' '' @ rest) None = s\<lparr>Up := True\<rparr>
      \<and> deliver s full ''switch-master'' (kind @ '' '' @ masterName s @ '' '' @ rest) None = s\<lparr>Up := True\<rparr>"
    if "CHR '' '' \<notin> set kind" "CHR '' '' \<notin> set (masterName s)"
    using isMasterName_fields [OF that, of s rest]
    by (simp add: deliver_def plusOdown_def minusOdown_def switchMaster_def)
  have c: "deliver s full k msg err = s"
    if "length (SplitN msg CHR '' '' 3) < 3 \<or> SplitN msg CHR '' '' 3 ! 1 \<noteq> masterName s"
  proof -
    from that have "\<not> isMasterName s msg" by (auto simp: isMasterName_def Let_def)
    then show ?thesis by (rule deliver_irrelevant)
  qed
  have u: "Up s' = Up s''" if "known s'' s'" for s' s'' :: "'h SPool"
    using that by (simp add: known_def)
  have d: "Up (stateOf (findPreferred e s)) = Up s" by (rule u [OF findPreferred_known])
  have f: "Up (stateOf (bootstrap e s)) = Up s" by (rule u [OF bootstrap_known])
  have g: "Up (stateOf out) = Up s" if "reset e s = Some out" for out
    by (rule u [OF reset_known [OF that]])
  have i: "Up (stateOf out) = Up s" if "creator e s = Some out" for out
    by (rule u [OF creator_known [OF that]])
  have j: "Up (stateOf out) = Up s" if "pubSub e s = Some out" for out
    by (rule u [OF pubSub_known [OF that]])
  have l: "Up (snd (NDo e c h ks s)) = Up s" by (rule u [OF registry_known [OF NDo_registry]])
  have m: "Up (snd (NUnDo e c ks s)) = Up s" by (rule u [OF registry_known [OF NUnDo_registry]])
  have o: "Up (stateOf (resubscribe e s)) = Up s"
    by (rule u [OF registry_known [OF resubscribe_registry]])
  have q: "Up (stateOf out)"
    if "New e hostPort mName sz rDelay rsDelay logEnabled = Some out"
    for out :: "(unit, 'h SPool) outcome"
    using u [OF New_known [OF that]] a by simp
  show ?thesis
    using a b c d f g i j l m o q by (intro conjI allI impI) blast+
qed

theorem availability_flag_witness:
  "CHR '' '' \<notin> set ''master'' \<and> CHR '' '' \<notin> set (masterName (installed ''10.0.0.5:6379'' 8))
   \<and> deliver (installed ''10.0.0.5:6379'' 8) ''message'' ''+odown'' ''master mymaster 10.0.0.5 6379 #quorum 2/2'' None
       = (installed ''10.0.0.5:6379'' 8)\<lparr>Up := False\<rparr>
   \<and> deliver (installed ''10.0.0.5:6379'' 8) ''message'' ''-odown'' ''master mymaster 10.0.0.5 6379 #quorum 2/2'' None
       = (installed ''10.0.0.5:6379'' 8)\<lparr>Up := True\<rparr>
   \<and> length (SplitN ''garbage'' CHR '' '' 3) < 3
   \<and> deliver ((installed ''10.0.0.5:6379'' 8)\<lparr>Up := False\<rparr>) ''message'' ''switch-master'' ''garbage'' None
       = (installed ''10.0.0.5:6379'' 8)\<lparr>Up := False\<rparr>
   \<and> SplitN ''master other 10.0.0.7 6379'' CHR '' '' 3 ! 1 \<noteq> ''mymaster''
   \<and> deliver (installed ''10.0.0.5:6379'' 8) ''message'' ''+odown'' ''master other 10.0.0.7 6379'' None
       = installed ''10.0.0.5:6379'' 8
   \<and> New bootWorld ''127.0.0.1:26379'' ''mymaster'' 10 5000000000 100000000 False
       = Some (Done () (installed ''10.0.0.5:6379'' 10))
   \<and> Up (installed ''10.0.0.5:6379'' 10)"
proof -
  have sp: "CHR '' '' \<notin> set ''master''" "CHR '' '' \<notin> set (masterName (installed ''10.0.0.5:6379'' 8))"
    by simp_all
  have g: "length (SplitN ''garbage'' CHR '' '' 3) < 3" by (simp add: numeral_3_eq_3)
  have o: "SplitN ''master other 10.0.0.7 6379'' CHR '' '' 3 ! 1 \<noteq> ''mymaster''"
    by (simp add: numeral_3_eq_3)
  from availability_flag [where kind = "''master''" and s = "installed ''10.0.0.5:6379'' 8"
      and rest = "''10.0.0.5 6379 #quorum 2/2''" and full = "''message''"] sp
  have one: "deliver (installed ''10.0.0.5:6379'' 8) ''message'' ''+odown'' ''master mymaster 10.0.0.5 6379 #quorum 2/2'' None
       = (installed ''10.0.0.5:6379'' 8)\<lparr>Up := False\<rparr>
     \<and> deliver (installed ''10.0.0.5:6379'' 8) ''message'' ''-odown'' ''master mymaster 10.0.0.5 6379 #quorum 2/2'' None
       = (installed ''10.0.0.5:6379'' 8)\<lparr>Up := True\<rparr>"
    by simp
  from availability_flag [where s = "(installed ''10.0.0.5:6379'' 8)\<lparr>Up := False\<rparr>"
      and msg = "''garbage''" and k = "''switch-master''" and err = None
      and full = "''message''"] g
  have two: "deliver ((installed ''10.0.0.5:6379'' 8)\<lparr>Up := False\<rparr>) ''message'' ''switch-master'' ''garbage'' None
       = (installed ''10.0.0.5:6379'' 8)\<lparr>Up := False\<rparr>"
    by blast
  from availability_flag [where s = "installed ''10.0.0.5:6379'' 8"
      and msg = "''master other 10.0.0.7 6379''" and k = "''+odown''" and err = None
      and full = "''message''"] o
  have three: "deliver (installed ''10.0.0.5:6379'' 8) ''message'' ''+odown'' ''master other 10.0.0.7 6379'' None
       = installed ''10.0.0.5:6379'' 8"
    by simp
  from availability_flag [THEN conjunct2, THEN conjunct2, THEN conjunct2, THEN conjunct2,
      THEN conjunct2, THEN conjunct2, THEN conjunct2, THEN conjunct2, THEN conjunct2,
      THEN conjunct2, THEN conjunct2, rule_format, OF bootWorld_run]
  have four: "Up (installed ''10.0.0.5:6379'' 10)" by simp
  from sp g o one two three four bootWorld_run show ?thesis by blast
qed

subsection \<open>C8: the connection factory\<close>



subsection \<open>C3: what the replay does to the registry\<close>

text \<open>
  Claim C3 fails on the code. \<^verbatim>\<open>resubscribe\<close> calls \<^verbatim>\<open>s.NDo\<close>, which stores the
  handler again under the same key when the pool accepts the subscription, so each
  replay doubles the list of handlers of a key and the next replay sends twice as
  many subscriptions. Here one handler is registered for \<^verbatim>\<open>SUBSCRIBE\<close> on \<^verbatim>\<open>news\<close>:
  the first resolution cycle sends one subscription and leaves two handlers, the
  second cycle sends two and leaves four.
\<close>

theorem replay_doubles_registry:
  "reset steady subscribed =
     Some (Done () (subscribed\<lparr>n := [(''SUBSCRIBE:news'', [7, 7])],
        sent := [(''SUBSCRIBE'', [''news'']), (''SUBSCRIBE'', [''news''])],
        clock := 10, pool := Some 1,
        poolLog := [PoolNew, PoolFill, PoolEmpty, PoolNew, PoolFill]\<rparr>))
   \<and> reset steady (subscribed\<lparr>n := [(''SUBSCRIBE:news'', [7, 7])],
        sent := [(''SUBSCRIBE'', [''news'']), (''SUBSCRIBE'', [''news''])],
        clock := 10, pool := Some 1,
        poolLog := [PoolNew, PoolFill, PoolEmpty, PoolNew, PoolFill]\<rparr>) =
     Some (Done () (subscribed\<lparr>n := [(''SUBSCRIBE:news'', [7, 7, 7, 7])],
        sent := [(''SUBSCRIBE'', [''news'']), (''SUBSCRIBE'', [''news'']),
                 (''SUBSCRIBE'', [''news'']), (''SUBSCRIBE'', [''news''])],
        clock := 16, pool := Some 2,
        poolLog := [PoolNew, PoolFill, PoolEmpty, PoolNew, PoolFill, PoolEmpty, PoolNew, PoolFill]\<rparr>))"
  by (simp add: subscribed_eq steady_def installed_def run_defs resetLoop.simps NDo_def
      remember_def lookupN_def numeral_2_eq_2)

subsection \<open>C4: the preferred sentinel\<close>

text \<open>
  Claim C4. Let \<^verbatim>\<open>findPreferred\<close> return, in a world where the probe of an address
  \<open>a\<close> always gives \<open>lat a\<close> (\<open>None\<close>: the probe fails; \<open>Some d\<close>: it connects and
  takes \<open>d\<close> nanoseconds). If the known address at position \<open>i\<close> connects in
  \<open>d\<close>, less than the starting bound of one second, every known address before it
  that connects takes strictly longer, and none after it takes less, then the preferred
  sentinel is the address at position \<open>i\<close>: the smallest latency wins and, among equal
  smallest latencies, the first one seen. If no probe connects in under a second, the
  preferred sentinel stays what it was. Every address known before the call is known
  after it, whether its probe failed or not.
\<close>

theorem preferred_is_first_fastest:
  assumes "findPreferred e s = Done u s'" and "\<forall>t a. DialTimeout e t a = lat a"
  shows "(\<forall>i d. i < length (hps s') \<and> lat (hps s' ! i) = Some d \<and> d < second
            \<and> (\<forall>j<i. \<forall>d'. lat (hps s' ! j) = Some d' \<longrightarrow> d < d')
            \<and> (\<forall>j<length (hps s'). \<forall>d'. lat (hps s' ! j) = Some d' \<longrightarrow> d \<le> d')
            \<longrightarrow> p s' = hps s' ! i)
       \<and> ((\<forall>a \<in> set (hps s'). \<forall>d. lat a = Some d \<longrightarrow> second \<le> d)
            \<longrightarrow> p s' = (if p s = [] then hd (hps s) else p s))
       \<and> set (hps s) \<subseteq> set (hps s')"
proof -
  from assms(2) have fixed: "\<And>t a. DialTimeout e t a = lat a" by simp
  from findPreferred_Done [OF assms(1)] obtain s3 where
    s3: "s' = probeAll e (hps s3) second s3" "p s3 = (if p s = [] then hd (hps s) else p s)"
    by blast
  have h: "hps s' = hps s3" by (simp add: s3(1) probeAll_hps)
  have one: "p s' = hps s' ! i"
    if "i < length (hps s')" "lat (hps s' ! i) = Some d" "d < second"
       "\<forall>j<i. \<forall>d'. lat (hps s' ! j) = Some d' \<longrightarrow> d < d'"
       "\<forall>j<length (hps s'). \<forall>d'. lat (hps s' ! j) = Some d' \<longrightarrow> d \<le> d'" for i d
    using probeAll_first_fastest [OF fixed, of i "hps s3" d second s3] that
    unfolding h s3(1) [symmetric] by simp
  have two: "p s' = (if p s = [] then hd (hps s) else p s)"
    if "\<forall>a \<in> set (hps s'). \<forall>d. lat a = Some d \<longrightarrow> second \<le> d"
    using probeAll_none_faster [OF fixed, of "hps s3" second s3] that s3(2)
    unfolding h s3(1) [symmetric] by simp
  have three: "set (hps s) \<subseteq> set (hps s')"
    using findPreferred_discovery [of s e] assms(1)
    by (auto simp: discovery_def dest: set_mono_prefix)
  from one two three show ?thesis by blast
qed

theorem preferred_is_first_fastest_witness:
  "findPreferred fourSentinels exampleClient = Done () discovered
   \<and> (\<forall>t a. DialTimeout fourSentinels t a = exampleLatency a)
   \<and> hps discovered = [''127.0.0.1:26379'', ''10.0.0.2:26379'', ''10.0.0.3:26379'', ''10.0.0.4:26379'']
   \<and> map exampleLatency (hps discovered) = [Some 5000000, Some 2000000, Some 2000000, None]
   \<and> (2000000 :: int) < second
   \<and> p discovered = hps discovered ! 1
   \<and> set (hps exampleClient) \<subseteq> set (hps discovered)"
proof -
  have fixed: "\<forall>t a. DialTimeout fourSentinels t a = exampleLatency a"
    by (simp add: fourSentinels_def exampleWorld_def)
  have h: "hps discovered = [''127.0.0.1:26379'', ''10.0.0.2:26379'', ''10.0.0.3:26379'', ''10.0.0.4:26379'']"
    by (simp add: discovered_def)
  have l: "map exampleLatency (hps discovered) = [Some 5000000, Some 2000000, Some 2000000, None]"
    by (simp add: h exampleLatency_def)
  have s: "(2000000 :: int) < second" by (simp add: second_def)
  note th = preferred_is_first_fastest [OF fourSentinels_run fixed]
  have "1 < length (hps discovered) \<and> exampleLatency (hps discovered ! 1) = Some 2000000
        \<and> (2000000 :: int) < second
        \<and> (\<forall>j<1. \<forall>d'. exampleLatency (hps discovered ! j) = Some d' \<longrightarrow> 2000000 < d')
        \<and> (\<forall>j<length (hps discovered). \<forall>d'. exampleLatency (hps discovered ! j) = Some d' \<longrightarrow> 2000000 \<le> d')"
    by (simp add: h s exampleLatency_def eval_nat_numeral All_less_Suc)
  then have pd: "p discovered = hps discovered ! 1"
    by (rule th [THEN conjunct1, rule_format])
  have sub: "set (hps exampleClient) \<subseteq> set (hps discovered)"
    by (rule th [THEN conjunct2, THEN conjunct2])
  show ?thesis by (intro conjI fourSentinels_run fixed h l s pd sub)
qed

subsection \<open>C5: the known sentinels\<close>

text \<open>
  Claim C5. \<^verbatim>\<open>findPreferred\<close>, whatever the replies and whether it returns or panics,
  leaves a list of known addresses that starts with the list it found (nothing removed,
  new addresses at the end), and free of duplicates if the list it found was. A peer
  record with host \<open>h\<close> and port \<open>po\<close> adds \<open>h:po\<close> at the end when it is not in
  the list, and nothing when it is. The same holds from the start to the end of any run
  of \<^verbatim>\<open>reset\<close>, which calls \<^verbatim>\<open>findPreferred\<close> any number of times, and for the
  client \<^verbatim>\<open>New\<close> ends with: its list starts with the bootstrap address and has no
  duplicates.
\<close>

theorem known_sentinels_grow:
  "prefix (hps s) (hps (stateOf (findPreferred e s)))
   \<and> (distinct (hps s) \<longrightarrow> distinct (hps (stateOf (findPreferred e s))))
   \<and> (strAt v 3 = Some h \<and> strAt v 5 = Some po \<longrightarrow>
        hps (stateOf (addSentinels [Arr v] s))
          = (if h @ '':'' @ po \<in> set (hps s) then hps s else hps s @ [h @ '':'' @ po]))
   \<and> (\<forall>out. reset e s = Some out \<longrightarrow>
        prefix (hps s) (hps (stateOf out)) \<and> (distinct (hps s) \<longrightarrow> distinct (hps (stateOf out))))
   \<and> (\<forall>out :: (unit, 'h SPool) outcome.
        New e hostPort mName sz rDelay rsDelay logEnabled = Some out \<longrightarrow>
        prefix [hostPort] (hps (stateOf out)) \<and> distinct (hps (stateOf out)))"
proof -
  have a: "prefix (hps s) (hps (stateOf (findPreferred e s)))
     \<and> (distinct (hps s) \<longrightarrow> distinct (hps (stateOf (findPreferred e s))))"
    using findPreferred_known [of s e] by (simp add: known_def)
  have b: "hps (stateOf (addSentinels [Arr v] s))
          = (if h @ '':'' @ po \<in> set (hps s) then hps s else hps s @ [h @ '':'' @ po])"
    if "strAt v 3 = Some h \<and> strAt v 5 = Some po"
    using that by (simp add: Let_def)
  have c: "prefix (hps s) (hps (stateOf out)) \<and> (distinct (hps s) \<longrightarrow> distinct (hps (stateOf out)))"
    if "reset e s = Some out" for out
    using reset_known [OF that] by (simp add: known_def)
  have d: "prefix [hostPort] (hps (stateOf out)) \<and> distinct (hps (stateOf out))"
    if "New e hostPort mName sz rDelay rsDelay logEnabled = Some out"
    for out :: "(unit, 'h SPool) outcome"
    using New_known [OF that] by (simp add: known_def initial_def)
  from a b c d show ?thesis by blast
qed

theorem known_sentinels_grow_witness:
  "distinct (hps exampleClient)
   \<and> stateOf (findPreferred fourSentinels exampleClient) = discovered
   \<and> hps exampleClient = [''127.0.0.1:26379'']
   \<and> hps discovered = [''127.0.0.1:26379'', ''10.0.0.2:26379'', ''10.0.0.3:26379'', ''10.0.0.4:26379'']
   \<and> prefix (hps exampleClient) (hps discovered) \<and> distinct (hps discovered)
   \<and> hps (stateOf (addSentinels [peer ''127.0.0.1'' ''26379''] exampleClient)) = hps exampleClient
   \<and> hps (stateOf (addSentinels [peer ''10.0.0.2'' ''26379''] exampleClient))
       = hps exampleClient @ [''10.0.0.2:26379'']
   \<and> New bootWorld ''127.0.0.1:26379'' ''mymaster'' 10 5000000000 100000000 False
       = Some (Done () (installed ''10.0.0.5:6379'' 10))
   \<and> prefix [''127.0.0.1:26379''] (hps (installed ''10.0.0.5:6379'' 10))
   \<and> distinct (hps (installed ''10.0.0.5:6379'' 10))"
proof -
  have r: "stateOf (findPreferred fourSentinels exampleClient) = discovered"
    by (simp add: fourSentinels_run)
  have h: "hps discovered = [''127.0.0.1:26379'', ''10.0.0.2:26379'', ''10.0.0.3:26379'', ''10.0.0.4:26379'']"
    by (simp add: discovered_def)
  have d: "distinct (hps exampleClient)" by simp
  note th = known_sentinels_grow [where s = exampleClient and e = fourSentinels]
  from th [THEN conjunct1] th [THEN conjunct2, THEN conjunct1, rule_format, OF d]
  have one: "prefix (hps exampleClient) (hps discovered) \<and> distinct (hps discovered)"
    unfolding r by (rule conjI)
  have f: "strAt [Str ''name'', Str (a @ '':'' @ b), Str ''ip'', Str a, Str ''port'', Str b] 3 = Some a
         \<and> strAt [Str ''name'', Str (a @ '':'' @ b), Str ''ip'', Str a, Str ''port'', Str b] 5 = Some b"
    for a b by (simp add: strAt_def index_def)
  from th [where v = "[Str ''name'', Str (''127.0.0.1'' @ '':'' @ ''26379''), Str ''ip'', Str ''127.0.0.1'', Str ''port'', Str ''26379'']"
      and h = "''127.0.0.1''" and po = "''26379''",
      THEN conjunct2, THEN conjunct2, THEN conjunct1, rule_format, OF f [of "''127.0.0.1''" "''26379''"]]
  have two: "hps (stateOf (addSentinels [peer ''127.0.0.1'' ''26379''] exampleClient)) = hps exampleClient"
    unfolding peer_def by simp
  from th [where v = "[Str ''name'', Str (''10.0.0.2'' @ '':'' @ ''26379''), Str ''ip'', Str ''10.0.0.2'', Str ''port'', Str ''26379'']"
      and h = "''10.0.0.2''" and po = "''26379''",
      THEN conjunct2, THEN conjunct2, THEN conjunct1, rule_format, OF f [of "''10.0.0.2''" "''26379''"]]
  have three: "hps (stateOf (addSentinels [peer ''10.0.0.2'' ''26379''] exampleClient))
       = hps exampleClient @ [''10.0.0.2:26379'']"
    unfolding peer_def by simp
  from known_sentinels_grow [THEN conjunct2, THEN conjunct2, THEN conjunct2, THEN conjunct2,
      rule_format, OF bootWorld_run]
  have four: "prefix [''127.0.0.1:26379''] (hps (installed ''10.0.0.5:6379'' 10))
     \<and> distinct (hps (installed ''10.0.0.5:6379'' 10))"
    by simp
  from d r h one two three four bootWorld_run show ?thesis by simp
qed

subsection \<open>C6: the preferred sentinel is a known one\<close>

text \<open>
  Claim C6. The struct literal of \<^verbatim>\<open>New\<close> makes the bootstrap address both the
  preferred sentinel and the only known one. If the preferred sentinel is among the
  known addresses before \<^verbatim>\<open>findPreferred\<close>, \<^verbatim>\<open>bootstrap\<close>, \<^verbatim>\<open>reset\<close>, the
  connection factory, \<^verbatim>\<open>pubSub\<close>, \<^verbatim>\<open>NDo\<close>, \<^verbatim>\<open>NUnDo\<close>, \<^verbatim>\<open>resubscribe\<close> or a
  handler of the monitor runs, it is among them afterwards, on return and on panic
  alike. So it is for the client \<^verbatim>\<open>New\<close> ends with.
\<close>

theorem preferred_is_known:
  "p (initial hostPort mName sz rDelay logEnabled :: 'h SPool)
     \<in> set (hps (initial hostPort mName sz rDelay logEnabled :: 'h SPool))
   \<and> (p (s :: 'h SPool) \<in> set (hps s) \<longrightarrow>
         p (stateOf (findPreferred e s)) \<in> set (hps (stateOf (findPreferred e s)))
       \<and> p (stateOf (bootstrap e s)) \<in> set (hps (stateOf (bootstrap e s)))
       \<and> (\<forall>out. reset e s = Some out \<longrightarrow> p (stateOf out) \<in> set (hps (stateOf out)))
       \<and> (\<forall>out. creator e s = Some out \<longrightarrow> p (stateOf out) \<in> set (hps (stateOf out)))
       \<and> (\<forall>out. pubSub e s = Some out \<longrightarrow> p (stateOf out) \<in> set (hps (stateOf out)))
       \<and> p (snd (NDo e c h ks s)) \<in> set (hps (snd (NDo e c h ks s)))
       \<and> p (snd (NUnDo e c ks s)) \<in> set (hps (snd (NUnDo e c ks s)))
       \<and> p (stateOf (resubscribe e s)) \<in> set (hps (stateOf (resubscribe e s)))
       \<and> p (deliver s full k msg err) \<in> set (hps (deliver s full k msg err)))
   \<and> (\<forall>out :: (unit, 'h SPool) outcome.
         New e hostPort mName sz rDelay rsDelay logEnabled = Some out
         \<longrightarrow> p (stateOf out) \<in> set (hps (stateOf out)))"
proof -
  have i: "p (initial hostPort mName sz rDelay logEnabled :: 'h SPool)
     \<in> set (hps (initial hostPort mName sz rDelay logEnabled :: 'h SPool))"
    by (simp add: initial_def)
  have k: "p s' \<in> set (hps s')" if "known s s'" "p s \<in> set (hps s)" for s s' :: "'h SPool"
    using that by (simp add: known_def)
  have ops: "p (stateOf (findPreferred e s)) \<in> set (hps (stateOf (findPreferred e s)))
       \<and> p (stateOf (bootstrap e s)) \<in> set (hps (stateOf (bootstrap e s)))
       \<and> (\<forall>out. reset e s = Some out \<longrightarrow> p (stateOf out) \<in> set (hps (stateOf out)))
       \<and> (\<forall>out. creator e s = Some out \<longrightarrow> p (stateOf out) \<in> set (hps (stateOf out)))
       \<and> (\<forall>out. pubSub e s = Some out \<longrightarrow> p (stateOf out) \<in> set (hps (stateOf out)))
       \<and> p (snd (NDo e c h ks s)) \<in> set (hps (snd (NDo e c h ks s)))
       \<and> p (snd (NUnDo e c ks s)) \<in> set (hps (snd (NUnDo e c ks s)))
       \<and> p (stateOf (resubscribe e s)) \<in> set (hps (stateOf (resubscribe e s)))
       \<and> p (deliver s full k msg err) \<in> set (hps (deliver s full k msg err))"
    if m: "p s \<in> set (hps s)"
  proof (intro conjI allI impI)
    show "p (stateOf (findPreferred e s)) \<in> set (hps (stateOf (findPreferred e s)))"
      by (rule k [OF findPreferred_known m])
    show "p (stateOf (bootstrap e s)) \<in> set (hps (stateOf (bootstrap e s)))"
      by (rule k [OF bootstrap_known m])
    show "p (stateOf out) \<in> set (hps (stateOf out))" if "reset e s = Some out" for out
      by (rule k [OF reset_known [OF that] m])
    show "p (stateOf out) \<in> set (hps (stateOf out))" if "creator e s = Some out" for out
      by (rule k [OF creator_known [OF that] m])
    show "p (stateOf out) \<in> set (hps (stateOf out))" if "pubSub e s = Some out" for out
      by (rule k [OF pubSub_known [OF that] m])
    show "p (snd (NDo e c h ks s)) \<in> set (hps (snd (NDo e c h ks s)))"
      by (rule k [OF registry_known [OF NDo_registry] m])
    show "p (snd (NUnDo e c ks s)) \<in> set (hps (snd (NUnDo e c ks s)))"
      by (rule k [OF registry_known [OF NUnDo_registry] m])
    show "p (stateOf (resubscribe e s)) \<in> set (hps (stateOf (resubscribe e s)))"
      by (rule k [OF registry_known [OF resubscribe_registry] m])
    show "p (deliver s full k msg err) \<in> set (hps (deliver s full k msg err))"
      using m by (simp add: deliver_topology)
  qed
  have n: "p (stateOf out) \<in> set (hps (stateOf out))"
    if "New e hostPort mName sz rDelay rsDelay logEnabled = Some out"
    for out :: "(unit, 'h SPool) outcome"
    by (rule k [OF New_known [OF that] i])
  from i ops n show ?thesis by blast
qed

theorem preferred_is_known_witness:
  "p exampleClient \<in> set (hps exampleClient)
   \<and> stateOf (findPreferred fourSentinels exampleClient) = discovered
   \<and> p discovered = ''10.0.0.2:26379''
   \<and> p discovered \<in> set (hps discovered)
   \<and> New bootWorld ''127.0.0.1:26379'' ''mymaster'' 10 5000000000 100000000 False
       = Some (Done () (installed ''10.0.0.5:6379'' 10))
   \<and> p (installed ''10.0.0.5:6379'' 10) \<in> set (hps (installed ''10.0.0.5:6379'' 10))"
proof -
  have m: "p exampleClient \<in> set (hps exampleClient)" by simp
  have r: "stateOf (findPreferred fourSentinels exampleClient) = discovered"
    by (simp add: fourSentinels_run)
  have q: "p discovered = ''10.0.0.2:26379''" by (simp add: discovered_def)
  from preferred_is_known [where s = exampleClient and e = fourSentinels,
      THEN conjunct2, THEN conjunct1, rule_format, OF m, THEN conjunct1]
  have a: "p discovered \<in> set (hps discovered)" unfolding r .
  from preferred_is_known [THEN conjunct2, THEN conjunct2, rule_format, OF bootWorld_run]
  have b: "p (installed ''10.0.0.5:6379'' 10) \<in> set (hps (installed ''10.0.0.5:6379'' 10))"
    by simp
  show ?thesis by (intro conjI m r q a b bootWorld_run)
qed

end
